theory Spec2Isabelle
  imports Main
begin

unbundle bit_operations_syntax

section \<open>Common data\<close>

text \<open>
  Python \<open>bytes\<close> are lists of 8-bit characters. Python \<open>str\<close> values are modelled as
  lists of 8-bit code points as well (the Latin-1 range), which covers every delimiter the
  code tests for (\<open>data:\<close>, \<open>;\<close>, \<open>,\<close>, \<open>=\<close>, quotes).
\<close>

type_synonym bytes = string

datatype error =
    RatarmountError string
  | ValueError string
  | AttributeError string
  | LibraryError string

text \<open>Sequencing of fallible computations: an exception aborts the rest.\<close>

definition ebind :: "error + 'a \<Rightarrow> ('a \<Rightarrow> error + 'b) \<Rightarrow> error + 'b" where
  "ebind m f = (case m of Inl e \<Rightarrow> Inl e | Inr x \<Rightarrow> f x)"

definition startswith :: "string \<Rightarrow> string \<Rightarrow> bool" where
  "startswith s p = (take (length p) s = p)"

definition endswith :: "string \<Rightarrow> string \<Rightarrow> bool" where
  "endswith s p = (length p \<le> length s \<and> drop (length s - length p) s = p)"

text \<open>\<open>s.find(c)\<close> for a single character: the index of its first occurrence, if any.\<close>

fun find_char :: "char \<Rightarrow> string \<Rightarrow> nat option" where
  "find_char c [] = None"
| "find_char c (x # xs) =
     (if x = c then Some 0 else map_option Suc (find_char c xs))"

text \<open>\<open>s.split(c)\<close> for a single-character separator: always at least one piece.\<close>

fun split_char :: "char \<Rightarrow> string \<Rightarrow> string list" where
  "split_char c [] = [[]]"
| "split_char c (x # xs) =
     (if x = c then [] # split_char c xs
      else (case split_char c xs of
              [] \<Rightarrow> [[x]]
            | p # ps \<Rightarrow> (x # p) # ps))"

text \<open>
  \<open>str.isspace\<close> on the code points below 256: the ASCII white space, the four
  separators \<open>0x1C..0x1F\<close>, NEL and the no-break space.
\<close>

definition str_isspace :: "char \<Rightarrow> bool" where
  "str_isspace c = ((of_char c :: nat) \<in> {9, 10, 11, 12, 13, 28, 29, 30, 31, 32, 133, 160})"

definition str_strip :: "string \<Rightarrow> string" where
  "str_strip s = rev (dropWhile str_isspace (rev (dropWhile str_isspace s)))"

text \<open>\<open>str.lower\<close> on the code points below 256.\<close>

definition lower_char :: "char \<Rightarrow> char" where
  "lower_char c =
     (let n = (of_char c :: nat) in
      if (65 \<le> n \<and> n \<le> 90) \<or> (192 \<le> n \<and> n \<le> 222 \<and> n \<noteq> 215)
      then char_of (n + 32) else c)"

definition str_lower :: "string \<Rightarrow> string" where
  "str_lower s = map lower_char s"

text \<open>ASCII decimal digits and the number a digit string denotes in a base.\<close>

definition is_digit :: "char \<Rightarrow> bool" where
  "is_digit c = (48 \<le> (of_char c :: nat) \<and> (of_char c :: nat) \<le> 57)"

definition digit_value :: "char \<Rightarrow> nat" where
  "digit_value c = (of_char c :: nat) - 48"

definition digits_value :: "nat \<Rightarrow> bytes \<Rightarrow> int" where
  "digits_value base ds = foldl (\<lambda>acc c. acc * int base + int (digit_value c)) 0 ds"

section \<open>The data-URL decoder (\<open>html.py\<close>, class \<open>DataURLFile\<close>)\<close>

subsection \<open>The standard library, as far as the decoder calls it\<close>

text \<open>
  \<open>DataURLFile.__init__\<close> calls five functions of the Python standard library. Their
  bodies are not part of the repository; the parts that need the entity table, the
  percent-decoder, the codec registry or the base64 decoder are parameters of the model.
\<close>

record pylib =
  replace_charrefs :: "string \<Rightarrow> string"
  unquote_impl :: "string \<Rightarrow> string"
  search_function :: "string \<Rightarrow> string option"
  b64decode :: "string \<Rightarrow> error + bytes"
  codec_encode :: "string \<Rightarrow> string \<Rightarrow> error + bytes"

text \<open>
  \<open>html.unescape(s)\<close> returns \<open>s\<close> itself when it holds no \<open>&\<close>, and substitutes the
  character references otherwise.
\<close>

definition html_unescape :: "pylib \<Rightarrow> string \<Rightarrow> string" where
  "html_unescape L s = (if CHR ''&'' \<notin> set s then s else replace_charrefs L s)"

text \<open>
  \<open>urllib.parse.unquote(s)\<close> returns \<open>s\<close> itself when it holds no \<open>%\<close>, and
  percent-decodes it otherwise.
\<close>

definition url_unquote :: "pylib \<Rightarrow> string \<Rightarrow> string" where
  "url_unquote L s = (if CHR ''%'' \<notin> set s then s else unquote_impl L s)"

text \<open>
  \<open>s.encode(encoding)\<close>: under the two encoding names that the decoder itself writes,
  \<open>ascii\<close> and \<open>utf8\<close>, a text of code points below 128 encodes to the same bytes.
  Everything else is left to the codec.
\<close>

definition str_encode :: "pylib \<Rightarrow> string \<Rightarrow> string \<Rightarrow> error + bytes" where
  "str_encode L s enc =
     (if (enc = ''ascii'' \<or> enc = ''utf8'') \<and> (\<forall>c \<in> set s. (of_char c :: nat) < 128)
      then Inr s else codec_encode L enc s)"

subsection \<open>The regular expression \<open>DATA_URL_REGEX\<close>\<close>

text \<open>
  The pattern is
  \<^verbatim>\<open>(?P<data_url>data:(?P<mime_type>[^;,"']+/[^;,"']+)?(?P<parameters>(;[^;,"']*)*),)\<close>
  and it is applied with \<open>re.match\<close>, that is, anchored at the start of the text.

  Every repeated piece of the pattern is a run of the class \<open>[^;,"']\<close>, which
  contains the slash and excludes four characters. Right after a run the pattern asks for
  \<open>;\<close> or \<open>,\<close>, neither of which is in the class; so a run that stops before its
  maximal end is followed by a character of the class and cannot be continued, and only
  maximal runs take part in a match. The scan below is therefore the whole semantics:
  \<^item> \<open>mime_type\<close> is the maximal run after \<open>data:\<close>, provided it has a \<open>/\<close> with
    at least one character on each side (whichever slash the engine picks, the group spans
    the whole run); an empty run leaves the group unset; any other non-empty run fails the
    match, because the next character is then neither \<open>;\<close> nor \<open>,\<close>;
  \<^item> \<open>parameters\<close> is the maximal sequence of \<open>;\<close> followed by a run;
  \<^item> the next character must be the comma.
\<close>

definition url_excluded :: "char \<Rightarrow> bool" where
  "url_excluded c = (c = CHR 0x3B \<or> c = CHR 0x2C \<or> c = CHR 0x22 \<or> c = CHR 0x27)"

definition url_run :: "string \<Rightarrow> string" where
  "url_run s = takeWhile (\<lambda>c. \<not> url_excluded c) s"

definition url_after_run :: "string \<Rightarrow> string" where
  "url_after_run s = dropWhile (\<lambda>c. \<not> url_excluded c) s"

text \<open>The group \<open>(;[^;,"']*)*\<close>: the matched text, scanned greedily.\<close>

function scan_parameters :: "string \<Rightarrow> string" where
  "scan_parameters [] = []"
| "scan_parameters (c # cs) =
     (if c = CHR 0x3B
      then c # url_run cs @ scan_parameters (url_after_run cs)
      else [])"
  by pat_completeness auto
termination
  by (relation "measure length")
     (auto simp: url_after_run_def length_dropWhile_le less_Suc_eq_le)

text \<open>\<open>[^;,"']+/[^;,"']+\<close> covers a whole run exactly when the run has an inner slash.\<close>

definition has_inner_slash :: "string \<Rightarrow> bool" where
  "has_inner_slash r = (CHR ''/'' \<in> set (butlast (tl r)))"

record url_match =
  group_mime_type :: "string option"
  group_parameters :: string
  match_end :: nat

definition DATA_URL_REGEX_match :: "string \<Rightarrow> url_match option" where
  "DATA_URL_REGEX_match data =
     (if \<not> startswith data ''data:'' then None
      else
        let body = drop 5 data;
            r = url_run body;
            rest = url_after_run body;
            ps = scan_parameters rest;
            tail = drop (length ps) rest
        in if r \<noteq> [] \<and> \<not> has_inner_slash r then None
           else if \<not> startswith tail '','' then None
           else Some \<lparr> group_mime_type = (if r = [] then None else Some r),
                       group_parameters = ps,
                       match_end = 5 + length r + length ps + 1 \<rparr>)"

subsection \<open>\<open>DataURLFile.__init__\<close>\<close>

record DataURLFile =
  mime_type :: string
  valid :: bool
  encoding :: string
  is_base64 :: bool
  contents :: bytes

text \<open>
  One round of the loop \<open>for parameter in parameters.split(';')\<close>: the encoding before,
  the raw token, the encoding after.
\<close>

definition apply_parameter :: "pylib \<Rightarrow> string \<Rightarrow> string \<Rightarrow> string" where
  "apply_parameter L enc token =
     (let parameter = str_lower (str_strip token) in
      if parameter = ''utf-8'' \<or> parameter = ''utf8'' then ''utf8''
      else case find_char CHR ''='' parameter of
             None \<Rightarrow> enc
           | Some i \<Rightarrow>
               let key = take i parameter; val = drop (Suc i) parameter in
               if str_strip key \<noteq> ''charset'' then enc
               else
                 let enc1 = (if str_strip val = ''us-ascii'' then ''ascii'' else enc)
                 in (case search_function L (str_strip val) of
                       None \<Rightarrow> enc1
                     | Some standard_name \<Rightarrow> standard_name))"

text \<open>
  The local variable \<open>data\<close> of the constructor:
  \<open>urllib.parse.unquote(html.unescape(data_url or ""))\<close>.
\<close>

definition unquoted_data :: "pylib \<Rightarrow> string option \<Rightarrow> string" where
  "unquoted_data L data_url =
     url_unquote L (html_unescape L (case data_url of None \<Rightarrow> [] | Some u \<Rightarrow> u))"

definition DataURLFile_init :: "pylib \<Rightarrow> string option \<Rightarrow> error + DataURLFile" where
  "DataURLFile_init L data_url =
     (let data = unquoted_data L data_url
      in case DATA_URL_REGEX_match data of
           None \<Rightarrow>
             Inr \<lparr> mime_type = ''text/plain'', valid = False, encoding = ''ascii'',
                   is_base64 = False, contents = [] \<rparr>
         | Some m \<Rightarrow>
             let mt = (case group_mime_type m of None \<Rightarrow> ''text/plain'' | Some t \<Rightarrow> t);
                 parameters = group_parameters m;
                 b64 = (parameters \<noteq> [] \<and> endswith parameters '';base64'');
                 enc = (if parameters = [] then ''ascii''
                        else foldl (apply_parameter L) ''ascii'' (split_char CHR 0x3B parameters));
                 payload = drop (match_end m) data
             in ebind (if b64 then b64decode L payload else str_encode L payload enc)
                  (\<lambda>decoded. Inr \<lparr> mime_type = mt, valid = False, encoding = enc,
                                     is_base64 = b64, contents = decoded \<rparr>))"

text \<open>
  Two kinds of parameter token, as the loop tells them apart: the bare tokens \<open>utf-8\<close>
  and \<open>utf8\<close>, and the assignments whose key is \<open>charset\<close>.
\<close>

definition is_utf8_parameter :: "string \<Rightarrow> bool" where
  "is_utf8_parameter token =
     (str_lower (str_strip token) = ''utf-8'' \<or> str_lower (str_strip token) = ''utf8'')"

definition is_charset_parameter :: "string \<Rightarrow> bool" where
  "is_charset_parameter token =
     (let parameter = str_lower (str_strip token) in
      case find_char CHR ''='' parameter of
        None \<Rightarrow> False
      | Some i \<Rightarrow> str_strip (take i parameter) = ''charset'')"

subsection \<open>A fragment of the standard library for running the decoder\<close>

text \<open>
  To run the decoder on concrete URLs, the library parameters are instantiated with the
  following fragment. Each function is exact on the inputs named in its comment and is
  applied only to such inputs below.

  Character references: \<open>&#n;\<close> in decimal with \<open>32 \<le> n \<le> 126\<close> becomes the character
  \<open>n\<close>; the scan resumes behind the reference. Exact on texts whose every \<open>&\<close> starts
  such a reference.
\<close>

function dec_charrefs :: "string \<Rightarrow> string" where
  "dec_charrefs [] = []"
| "dec_charrefs (c # cs) =
     (let ds = takeWhile is_digit (drop 1 cs); rest = dropWhile is_digit (drop 1 cs) in
      if c = CHR ''&'' \<and> startswith cs ''#'' \<and> ds \<noteq> [] \<and> startswith rest '';''
         \<and> 32 \<le> digits_value 10 ds \<and> digits_value 10 ds \<le> 126
      then char_of (digits_value 10 ds) # dec_charrefs (drop 1 rest)
      else c # dec_charrefs cs)"
  by pat_completeness auto
termination
proof (relation "measure length")
  fix c :: char and cs ds rest :: string
  assume "rest = dropWhile is_digit (drop 1 cs)"
  then have "length rest \<le> length cs"
    using length_dropWhile_le [of is_digit "drop 1 cs"] by simp
  then show "(drop 1 rest, c # cs) \<in> measure length"
    by simp
qed simp_all

text \<open>
  Percent-decoding: \<open>%XY\<close> with two hexadecimal digits and a value below 128 becomes that
  character. Exact on texts in which every \<open>%\<close> is followed by such a pair.
\<close>

definition hex_value :: "char \<Rightarrow> nat option" where
  "hex_value c =
     (let n = (of_char c :: nat) in
      if 48 \<le> n \<and> n \<le> 57 then Some (n - 48)
      else if 65 \<le> n \<and> n \<le> 70 then Some (n - 55)
      else if 97 \<le> n \<and> n \<le> 102 then Some (n - 87)
      else None)"

fun percent_decode :: "string \<Rightarrow> string" where
  "percent_decode (c # h # l # cs) =
     (case (hex_value h, hex_value l) of
        (Some a, Some b) \<Rightarrow>
          if c = CHR ''%'' \<and> 16 * a + b < 128
          then char_of (16 * a + b) # percent_decode cs
          else c # percent_decode (h # l # cs)
      | _ \<Rightarrow> c # percent_decode (h # l # cs))"
| "percent_decode cs = cs"

text \<open>
  Base64: groups of four characters of the standard alphabet, the last group padded with
  one or two \<open>=\<close>. Exact on canonically encoded input.
\<close>

definition b64_index :: "char \<Rightarrow> nat option" where
  "b64_index c =
     (let n = (of_char c :: nat) in
      if 65 \<le> n \<and> n \<le> 90 then Some (n - 65)
      else if 97 \<le> n \<and> n \<le> 122 then Some (n - 71)
      else if 48 \<le> n \<and> n \<le> 57 then Some (n + 4)
      else if n = 43 then Some 62
      else if n = 47 then Some 63
      else None)"

fun b64_groups :: "string \<Rightarrow> error + bytes" where
  "b64_groups [] = Inr []"
| "b64_groups (a # b # c # d # rest) =
     (case (b64_index a, b64_index b) of
        (Some x, Some y) \<Rightarrow>
          if c = CHR ''='' \<and> d = CHR ''='' \<and> rest = []
          then Inr [char_of (4 * x + y div 16)]
          else (case b64_index c of
                  None \<Rightarrow> Inl (LibraryError ''binascii.Error'')
                | Some z \<Rightarrow>
                    if d = CHR ''='' \<and> rest = []
                    then Inr [char_of (4 * x + y div 16), char_of (16 * (y mod 16) + z div 4)]
                    else (case b64_index d of
                            None \<Rightarrow> Inl (LibraryError ''binascii.Error'')
                          | Some w \<Rightarrow>
                              ebind (b64_groups rest)
                                (\<lambda>bs. Inr (char_of (4 * x + y div 16)
                                          # char_of (16 * (y mod 16) + z div 4)
                                          # char_of (64 * (z mod 4) + w) # bs))))
      | _ \<Rightarrow> Inl (LibraryError ''binascii.Error''))"
| "b64_groups _ = Inl (LibraryError ''binascii.Error'')"

text \<open>
  The codec registry: the names of five common spellings. Latin-1 encodes every code point
  below 256 as itself; UTF-8 does so below 128; other text is not encoded by the fragment.
\<close>

definition codec_name :: "string \<Rightarrow> string option" where
  "codec_name n =
     (if n = ''utf-8'' \<or> n = ''utf8'' then Some ''utf-8''
      else if n = ''us-ascii'' \<or> n = ''ascii'' then Some ''ascii''
      else if n = ''latin1'' then Some ''iso8859-1''
      else None)"

definition ascii_pylib :: pylib where
  "ascii_pylib =
     \<lparr> replace_charrefs = dec_charrefs,
       unquote_impl = percent_decode,
       search_function = codec_name,
       b64decode = b64_groups,
       codec_encode = (\<lambda>enc s.
          if enc = ''iso8859-1'' then Inr s
          else if enc = ''utf-8'' \<and> (\<forall>c \<in> set s. (of_char c :: nat) < 128) then Inr s
          else Inl (LibraryError ''UnicodeEncodeError'')) \<rparr>"

section \<open>The AR parser (\<open>ar.py\<close>, function \<open>_parse_ar_archive\<close>)\<close>

subsection \<open>Operations on \<open>bytes\<close>\<close>

text \<open>\<open>bytes.strip()\<close> without argument removes ASCII white space at both ends.\<close>

definition bytes_isspace :: "char \<Rightarrow> bool" where
  "bytes_isspace c = ((of_char c :: nat) \<in> {9, 10, 11, 12, 13, 32})"

definition bytes_strip :: "bytes \<Rightarrow> bytes" where
  "bytes_strip b = rev (dropWhile bytes_isspace (rev (dropWhile bytes_isspace b)))"

text \<open>\<open>b.rstrip(chars)\<close> and \<open>b.strip(chars)\<close> with an explicit set of bytes.\<close>

definition rstrip_chars :: "bytes \<Rightarrow> bytes \<Rightarrow> bytes" where
  "rstrip_chars chars b = rev (dropWhile (\<lambda>c. c \<in> set chars) (rev b))"

definition strip_chars :: "bytes \<Rightarrow> bytes \<Rightarrow> bytes" where
  "strip_chars chars b = rstrip_chars chars (dropWhile (\<lambda>c. c \<in> set chars) b)"

text \<open>\<open>b.isdigit()\<close>: not empty, and ASCII digits only.\<close>

definition bytes_isdigit :: "bytes \<Rightarrow> bool" where
  "bytes_isdigit b = (b \<noteq> [] \<and> list_all is_digit b)"

text \<open>\<open>b.find(sub)\<close> and \<open>b.find(sub, start)\<close>; \<open>None\<close> stands for the result \<open>-1\<close>.\<close>

fun find_sub :: "bytes \<Rightarrow> bytes \<Rightarrow> nat option" where
  "find_sub sub [] = (if sub = [] then Some 0 else None)"
| "find_sub sub (x # xs) =
     (if startswith (x # xs) sub then Some 0 else map_option Suc (find_sub sub xs))"

definition find_from :: "bytes \<Rightarrow> bytes \<Rightarrow> nat \<Rightarrow> nat option" where
  "find_from sub b start =
     (if length b < start then None
      else map_option (\<lambda>i. start + i) (find_sub sub (drop start b)))"

text \<open>\<open>b.split(b'/\n')\<close>: the pieces between the occurrences, taken from the left.\<close>

fun split_slash_newline :: "bytes \<Rightarrow> bytes list" where
  "split_slash_newline (x # y # rest) =
     (if x = CHR ''/'' \<and> y = CHR 0x0A then [] # split_slash_newline rest
      else (case split_slash_newline (y # rest) of
              [] \<Rightarrow> [[x]]
            | p # ps \<Rightarrow> (x # p) # ps))"
| "split_slash_newline s = [s]"

subsection \<open>\<open>int(b)\<close> and \<open>int(b, base)\<close> on \<open>bytes\<close>\<close>

text \<open>
  CPython reads an integer literal as: optional white space, an optional sign, for base 8
  an optional prefix \<open>0o\<close> (which one underscore may follow), then digits of the base
  with single underscores between digits, then optional white space up to the end.
  Anything else is a \<open>ValueError\<close>, here \<open>None\<close>. Only the bases 8 and 10 occur.
\<close>

definition long_digit_value :: "char \<Rightarrow> nat" where
  "long_digit_value c =
     (let n = (of_char c :: nat) in
      if 48 \<le> n \<and> n \<le> 57 then n - 48
      else if 97 \<le> n \<and> n \<le> 122 then n - 87
      else if 65 \<le> n \<and> n \<le> 90 then n - 55
      else 37)"

fun double_underscore :: "bytes \<Rightarrow> bool" where
  "double_underscore (x # y # rest) =
     ((x = CHR ''_'' \<and> y = CHR ''_'') \<or> double_underscore (y # rest))"
| "double_underscore s = False"

definition py_int :: "nat \<Rightarrow> bytes \<Rightarrow> int option" where
  "py_int base b =
     (let s1 = dropWhile bytes_isspace b;
          negative = startswith s1 ''-'';
          s2 = (if negative \<or> startswith s1 ''+'' then drop 1 s1 else s1);
          s3 = (if base = 8 \<and> (startswith s2 ''0o'' \<or> startswith s2 ''0O'')
                then (if startswith (drop 2 s2) ''_'' then drop 3 s2 else drop 2 s2)
                else s2);
          body = takeWhile (\<lambda>c. long_digit_value c < base \<or> c = CHR ''_'') s3;
          rest = dropWhile (\<lambda>c. long_digit_value c < base \<or> c = CHR ''_'') s3
      in if body = [] \<or> startswith body ''_'' \<or> endswith body ''_'' \<or> double_underscore body
            \<or> dropWhile bytes_isspace rest \<noteq> []
         then None
         else
           let magnitude = foldl (\<lambda>acc c. acc * int base + int (long_digit_value c)) 0
                             (filter (\<lambda>c. c \<noteq> CHR ''_'') body)
           in Some (if negative then - magnitude else magnitude))"

subsection \<open>The nested function \<open>parse_int\<close>\<close>

text \<open>
  \<open>_DECIMAL_NUMBER_REGEX = re.compile(b"[0-9]* *")\<close>, used with \<open>fullmatch\<close>: digits,
  then spaces, then the end of the field. The two classes are disjoint, so the greedy scan
  decides the match.
\<close>

definition DECIMAL_NUMBER_REGEX_fullmatch :: "bytes \<Rightarrow> bool" where
  "DECIMAL_NUMBER_REGEX_fullmatch field_bytes =
     (dropWhile (\<lambda>c. c = CHR '' '') (dropWhile is_digit field_bytes) = [])"

definition parse_int :: "bytes \<Rightarrow> nat \<Rightarrow> int \<Rightarrow> error + int" where
  "parse_int field_bytes base default_value =
     (if \<not> DECIMAL_NUMBER_REGEX_fullmatch field_bytes
      then Inl (ValueError ''Expected integer encoded as string padded with spaces'')
      else
        let field_str = bytes_strip field_bytes
        in if field_str = [] then Inr default_value
           else (case py_int base field_str of
                   None \<Rightarrow> Inl (ValueError ''invalid literal for int()'')
                 | Some v \<Rightarrow> Inr v))"

text \<open>
  The shape of a numeric header field that \<open>parse_int\<close> accepts, for stating what it
  computes: digits of the base, then nothing but spaces. The value is the default when there
  are no digits.
\<close>

definition padded_digits :: "nat \<Rightarrow> bytes \<Rightarrow> bool" where
  "padded_digits base field_bytes =
     (list_all (\<lambda>c. digit_value c < base) (takeWhile is_digit field_bytes)
      \<and> list_all (\<lambda>c. c = CHR '' '') (dropWhile is_digit field_bytes))"

definition padded_value :: "nat \<Rightarrow> int \<Rightarrow> bytes \<Rightarrow> int" where
  "padded_value base default_value field_bytes =
     (if takeWhile is_digit field_bytes = [] then default_value
      else digits_value base (takeWhile is_digit field_bytes))"

subsection \<open>Member records\<close>

datatype tar_type = REGTYPE | SYMTYPE

record TarInfo =
  ti_name :: bytes
  ti_offset :: nat
  ti_offset_data :: nat
  ti_size :: int
  ti_mtime :: int
  ti_uid :: int
  ti_gid :: int
  ti_mode :: int
  ti_linkname :: bytes
  ti_type :: tar_type

text \<open>\<open>tarfile.TarInfo()\<close> with its defaults.\<close>

definition TarInfo_new :: TarInfo where
  "TarInfo_new =
     \<lparr> ti_name = [], ti_offset = 0, ti_offset_data = 0, ti_size = 0, ti_mtime = 0,
       ti_uid = 0, ti_gid = 0, ti_mode = 420, ti_linkname = [], ti_type = REGTYPE \<rparr>"

definition S_IFREG :: int where "S_IFREG = 32768"
definition S_IFLNK :: int where "S_IFLNK = 40960"
definition S_IFDIR :: int where "S_IFDIR = 16384"


definition HEADER_SIZE :: nat where "HEADER_SIZE = 60"

text \<open>
  The \<open>try\<close> block of the loop: \<open>struct.unpack("16s12s6s6s8s10s2s", header_data)\<close> cuts the
  60 bytes into seven fields. A wrong terminator raises \<open>RatarmountError\<close>, which the
  \<open>except\<close> clause does not catch; a \<open>ValueError\<close> of \<open>parse_int\<close> is caught and raised
  again as \<open>RatarmountError("Invalid AR archive!")\<close>. The result is the stripped name and
  the filled record.
\<close>

definition unpack_field :: "bytes \<Rightarrow> nat \<Rightarrow> nat \<Rightarrow> bytes" where
  "unpack_field header_data start len = take len (drop start header_data)"

definition parse_header :: "bool \<Rightarrow> bytes \<Rightarrow> TarInfo \<Rightarrow> error + (bytes \<times> TarInfo)" where
  "parse_header is_thin header_data tar_info =
     (if unpack_field header_data 58 2 \<noteq> [CHR 0x60, CHR 0x0A]
      then Inl (RatarmountError ''Invalid AR file header ending characters'')
      else
        case
          ebind (parse_int (unpack_field header_data 16 12) 10 0) (\<lambda>v_mtime.
          ebind (parse_int (unpack_field header_data 28 6) 10 0) (\<lambda>v_uid.
          ebind (parse_int (unpack_field header_data 34 6) 10 0) (\<lambda>v_gid.
          ebind (parse_int (unpack_field header_data 40 8) 8 432) (\<lambda>v_mode.
          ebind (parse_int (unpack_field header_data 48 10) 10 0) (\<lambda>v_size.
            Inr (rstrip_chars [CHR '' '', CHR 0x00] (unpack_field header_data 0 16),
                 tar_info \<lparr> ti_mtime := v_mtime, ti_uid := v_uid, ti_gid := v_gid,
                            ti_mode := (if is_thin then (v_mode OR S_IFREG) OR S_IFLNK
                                        else v_mode OR S_IFREG),
                            ti_size := v_size \<rparr>))))))
        of
          Inl e \<Rightarrow> Inl (RatarmountError ''Invalid AR archive!'')
        | Inr r \<Rightarrow> Inr r)"

subsection \<open>Long file names\<close>

text \<open>
  \<open>long_names\<close> is \<open>None\<close>, the raw table (thin archives) or the list of its entries
  (regular archives).
\<close>

datatype long_names = RawTable bytes | NameList "bytes list"

definition truthy :: "long_names option \<Rightarrow> bool" where
  "truthy ln = (case ln of None \<Rightarrow> False
                | Some (RawTable b) \<Rightarrow> b \<noteq> []
                | Some (NameList l) \<Rightarrow> l \<noteq> [])"

definition long_names_len :: "long_names option \<Rightarrow> nat" where
  "long_names_len ln = (case ln of None \<Rightarrow> 0
                        | Some (RawTable b) \<Rightarrow> length b
                        | Some (NameList l) \<Rightarrow> length l)"

text \<open>
  The nested function \<open>get_long_file_name\<close>. The table is a list exactly in regular
  archives, so \<open>long_names[index]\<close> is only ever taken from a list; the model returns the
  name unchanged for the combination that cannot arise.
\<close>

definition get_long_file_name :: "bool \<Rightarrow> long_names option \<Rightarrow> bytes \<Rightarrow> bytes" where
  "get_long_file_name is_thin ln nm =
     (if truthy ln \<and> startswith nm ''/'' \<and> bytes_isdigit (drop 1 nm)
      then
        (case py_int 10 (drop 1 nm) of
           None \<Rightarrow> nm
         | Some index \<Rightarrow>
             if 0 \<le> index \<and> index < int (long_names_len ln)
             then
               (case ln of
                  Some (NameList l) \<Rightarrow> if \<not> is_thin then l ! nat index else nm
                | Some (RawTable b) \<Rightarrow>
                    if \<not> is_thin then nm
                    else (case find_from [CHR ''/'', CHR 0x0A] b (nat index) of
                            None \<Rightarrow> nm
                          | Some e \<Rightarrow>
                              if e \<ge> nat index then take (e - nat index) (drop (nat index) b)
                              else nm)
                | None \<Rightarrow> nm)
             else nm)
      else nm)"

text \<open>The retroactive loop \<open>for file in files\<close> after a table has been read.\<close>

definition apply_index :: "bool \<Rightarrow> long_names option \<Rightarrow> TarInfo \<Rightarrow> TarInfo" where
  "apply_index is_thin ln file =
     (if is_thin then file \<lparr> ti_linkname := get_long_file_name is_thin ln (ti_name file) \<rparr>
      else file \<lparr> ti_name := get_long_file_name is_thin ln (ti_name file) \<rparr>)"

subsection \<open>The main loop\<close>

text \<open>
  The file object is the byte string \<open>data\<close> and a position. \<open>read(n)\<close> returns
  \<open>take n (drop pos data)\<close> and advances by what it returned; \<open>seek\<close> may move past the
  end, after which \<open>read\<close> returns nothing.
\<close>

record ar_state =
  pos :: nat
  long_names :: "long_names option"
  files :: "TarInfo list"

text \<open>
  The block \<open>if name == GNU_INDEX_NAME\<close>, as far as it reads: in a thin archive the raw
  table; in a regular archive the split table, without the padding entry of an even-sized
  table, and behind the padding byte of an odd-sized one. Returns the table and the new
  position.
\<close>

definition read_gnu_index :: "bool \<Rightarrow> bytes \<Rightarrow> nat \<Rightarrow> int \<Rightarrow> long_names \<times> nat" where
  "read_gnu_index is_thin data offs sz =
     (let raw = take (nat sz) (drop offs data);
          p = offs + length raw
      in if is_thin then (RawTable raw, p)
         else
           let parts = split_slash_newline raw
           in if sz mod 2 = 0
              then (if parts \<noteq> [] \<and> (last parts = [CHR 0x60] \<or> last parts = [CHR 0x0A])
                    then (NameList (butlast parts), p) else (NameList parts, p))
              else (NameList parts, p + nat (sz mod 2)))"

text \<open>
  The block \<open>if name.startswith(BSD_LONG_NAME_PREFIX)\<close>: \<open>int\<close> may raise a
  \<open>ValueError\<close>, which nothing catches; \<open>read\<close> with a negative count reads to the end
  of the file, so a negative length always ends in the \<open>RatarmountError\<close>.
\<close>

definition read_bsd_name :: "bytes \<Rightarrow> nat \<Rightarrow> bytes \<Rightarrow> TarInfo \<Rightarrow> error + (bytes \<times> TarInfo)" where
  "read_bsd_name data offs nm tar_info =
     (if startswith nm ''#1/''
      then
        (case py_int 10 (drop 3 nm) of
           None \<Rightarrow> Inl (ValueError ''invalid literal for int()'')
         | Some name_size \<Rightarrow>
             let long_name = (if name_size < 0 then drop offs data
                              else take (nat name_size) (drop offs data))
             in if int (length long_name) \<noteq> name_size
                then Inl (RatarmountError ''Read insufficient data for BSD long file name'')
                else Inr (long_name,
                          tar_info \<lparr> ti_offset_data := ti_offset_data tar_info + nat name_size,
                                     ti_size := ti_size tar_info - name_size \<rparr>))
      else Inr (nm, tar_info))"

text \<open>The block \<open>if long_names\<close> and the assignment of the name.\<close>

definition resolve_name :: "bool \<Rightarrow> long_names option \<Rightarrow> bytes \<Rightarrow> TarInfo \<Rightarrow> TarInfo" where
  "resolve_name is_thin ln nm tar_info =
     (if truthy ln
      then (if is_thin
            then tar_info \<lparr> ti_linkname := get_long_file_name is_thin ln nm,
                            ti_type := SYMTYPE,
                            ti_name := strip_chars [CHR 0x00] nm \<rparr>
            else tar_info \<lparr> ti_name := strip_chars [CHR 0x00] (get_long_file_name is_thin ln nm) \<rparr>)
      else tar_info \<lparr> ti_name := strip_chars [CHR 0x00] nm \<rparr>)"

text \<open>
  One round of \<open>while header_data := fileObject.read(HEADER_SIZE)\<close> for a complete
  header; \<open>offs\<close> is \<open>fileObject.tell()\<close> behind the header and \<open>sz\<close> the size of the
  header, which includes a BSD long name.
\<close>

definition ar_member :: "bool \<Rightarrow> bytes \<Rightarrow> ar_state \<Rightarrow> error + ar_state" where
  "ar_member is_thin data st =
     (let header_data = take HEADER_SIZE (drop (pos st) data);
          offs = pos st + length header_data;
          tar_info0 = TarInfo_new \<lparr> ti_offset := offs - HEADER_SIZE, ti_offset_data := offs \<rparr>
      in ebind (parse_header is_thin header_data tar_info0) (\<lambda>(nm, tar_info).
           let sz = ti_size tar_info in
           if nm = ''/'' then Inr (st \<lparr> pos := offs + nat (sz + sz mod 2) \<rparr>)
           else if nm = ''//'' then
             (let (table, p) = read_gnu_index is_thin data offs sz
              in Inr \<lparr> pos = p, long_names = Some table,
                       files = map (apply_index is_thin (Some table)) (files st) \<rparr>)
           else
             ebind (read_bsd_name data offs nm tar_info) (\<lambda>(nm1, tar_info1).
               Inr (st \<lparr> pos := (if is_thin then offs else offs + nat (sz + sz mod 2)),
                         files := files st @ [resolve_name is_thin (long_names st) nm1 tar_info1] \<rparr>))))"

function ar_loop :: "bool \<Rightarrow> bytes \<Rightarrow> ar_state \<Rightarrow> error + TarInfo list" where
  "ar_loop is_thin data st =
     (let header_data = take HEADER_SIZE (drop (pos st) data)
      in if header_data = [] then Inr (files st)
         else if length header_data < HEADER_SIZE
         then Inl (RatarmountError ''Encountered incomplete AR header'')
         else (case ar_member is_thin data st of
                 Inl e \<Rightarrow> Inl e
               | Inr st' \<Rightarrow> ar_loop is_thin data st'))"
  by pat_completeness auto
termination
proof (relation "measure (\<lambda>(is_thin, data, st). length data - pos st)")
  fix is_thin :: bool and data :: bytes and st st' :: ar_state and header_data :: bytes
  assume h: "header_data = take HEADER_SIZE (drop (pos st) data)" "header_data \<noteq> []"
     and full: "\<not> length header_data < HEADER_SIZE"
     and step: "ar_member is_thin data st = Inr st'"
  from h have lt: "pos st < length data" by (cases "pos st < length data") auto
  from h full have len: "length (take HEADER_SIZE (drop (pos st) data)) = HEADER_SIZE"
    by (simp add: HEADER_SIZE_def)
  have "pos st < pos st'"
    using step len
    by (auto simp: ar_member_def Let_def ebind_def read_gnu_index_def HEADER_SIZE_def
             split: sum.splits prod.splits if_splits)
  with lt show "((is_thin, data, st'), (is_thin, data, st))
                  \<in> measure (\<lambda>(is_thin, data, st). length data - pos st)"
    by simp
qed simp

text \<open>
  \<open>_parse_ar_archive\<close>: the magic, then the loop from the position behind the magic. The
  file object is read from its start.
\<close>

definition parse_ar_archive :: "bytes \<Rightarrow> error + TarInfo list" where
  "parse_ar_archive data =
     (let magic = take 8 data;
          is_thin = (magic = ''!<thin>\<newline>'')
      in if magic \<noteq> ''!<arch>\<newline>'' \<and> \<not> is_thin
         then Inl (RatarmountError ''Invalid AR magic bytes'')
         else ar_loop is_thin data \<lparr> pos = length magic, long_names = None, files = [] \<rparr>)"

text \<open>
  The name field of the header that starts at a position, as the loop reads it:
  \<open>header_parts[0].rstrip(b' \x00')\<close>.
\<close>

definition header_name :: "bytes \<Rightarrow> nat \<Rightarrow> bytes" where
  "header_name data header_offset =
     rstrip_chars [CHR '' '', CHR 0x00]
       (unpack_field (take HEADER_SIZE (drop header_offset data)) 0 16)"


text \<open>
  The length \<open>N\<close> that a BSD long name \<open>#1/N\<close> announces in the header at a position;
  \<open>None\<close> when the name has no such prefix or \<open>N\<close> is not a number.
\<close>

definition bsd_name_size :: "bytes \<Rightarrow> nat \<Rightarrow> int option" where
  "bsd_name_size data header_offset =
     (if startswith (header_name data header_offset) ''#1/''
      then py_int 10 (drop 3 (header_name data header_offset))
      else None)"


section \<open>The AR mount source (\<open>ar.py\<close>, class \<open>ARMountSource\<close>)\<close>

subsection \<open>Rows and file information\<close>






subsection \<open>\<open>ARMountSource._convert_to_row\<close>\<close>



subsection \<open>\<open>ARMountSource.open\<close>\<close>





section \<open>The HTML scanner (\<open>html.py\<close>)\<close>

subsection \<open>\<open>HTMLDataURLParser\<close>\<close>

record LineOffset =
  line :: nat
  offset :: nat

text \<open>
  \<open>HTMLParser\<close> hands \<open>handle_starttag\<close> the attributes of a tag as pairs of a name
  and a value, and the value is \<open>None\<close> for an attribute written without one, as
  \<open>disabled\<close> in \<open><input disabled>\<close>. So an attribute value is a \<open>string option\<close>, and
  so is the original URL of a candidate, which is read from such a value.
\<close>

type_synonym attribute_value = "string option"

record EmbeddedFileCandidate =
  original_url :: attribute_value
  attribute :: string
  start :: LineOffset
  next_offset :: "LineOffset option"

text \<open>
  \<open>dict(attrs)\<close>: a key keeps the place of its first occurrence and the value of its last.
  \<open>d.get(k, default)\<close> reads it.
\<close>

fun dict_update :: "('k \<times> 'v) list \<Rightarrow> 'k \<Rightarrow> 'v \<Rightarrow> ('k \<times> 'v) list" where
  "dict_update [] k v = [(k, v)]"
| "dict_update ((k', v') # d) k v =
     (if k' = k then (k, v) # d else (k', v') # dict_update d k v)"

definition dict_of :: "('k \<times> 'v) list \<Rightarrow> ('k \<times> 'v) list" where
  "dict_of items = foldl (\<lambda>d (k, v). dict_update d k v) [] items"

definition dict_get :: "('k \<times> 'v) list \<Rightarrow> 'k \<Rightarrow> 'v \<Rightarrow> 'v" where
  "dict_get d k default_value = (case map_of d k of None \<Rightarrow> default_value | Some v \<Rightarrow> v)"

text \<open>
  The parser's state is the list \<open>files\<close>; \<open>getpos\<close> is the position that
  \<open>HTMLParser.getpos()\<close> reports during the callback.
\<close>

definition update_end_offset ::
  "EmbeddedFileCandidate list \<Rightarrow> LineOffset \<Rightarrow> EmbeddedFileCandidate list" where
  "update_end_offset fs getpos =
     (if fs = [] then fs
      else
        let file = last fs
        in if next_offset file \<noteq> None \<or> getpos = start file then fs
           else butlast fs @ [file \<lparr> next_offset := Some getpos \<rparr>])"

text \<open>
  \<open>any(v.startswith('data:') for _, v in attrs)\<close>: the values are tested in order up to
  the first that begins with \<open>data:\<close>; testing a value that is \<open>None\<close> raises
  \<open>AttributeError\<close>.
\<close>

definition NoneType_startswith :: error where
  "NoneType_startswith = AttributeError ''NoneType object has no attribute startswith''"

fun any_startswith_data :: "(string \<times> attribute_value) list \<Rightarrow> error + bool" where
  "any_startswith_data [] = Inr False"
| "any_startswith_data (item # attrs) =
     (case snd item of
        None \<Rightarrow> Inl NoneType_startswith
      | Some v \<Rightarrow> if startswith v ''data:'' then Inr True else any_startswith_data attrs)"

text \<open>
  One round of the loop \<open>for attribute, value in attributes.items()\<close> of
  \<open>handle_starttag\<close>; \<open>value.startswith\<close> raises \<open>AttributeError\<close> for a value that is
  \<open>None\<close>. \<open>attributes.get("data-savepage-" + attribute, "")\<close> is whatever the
  dictionary holds under that name, also \<open>None\<close>.
\<close>

definition starttag_attribute ::
  "(string \<times> attribute_value) list \<Rightarrow> LineOffset \<Rightarrow> EmbeddedFileCandidate list
     \<Rightarrow> string \<times> attribute_value \<Rightarrow> error + EmbeddedFileCandidate list" where
  "starttag_attribute attributes getpos fs item =
     (let attribute = fst item in
      case snd item of
        None \<Rightarrow> Inl NoneType_startswith
      | Some value \<Rightarrow>
          if \<not> startswith value ''data:'' then Inr fs
          else (case find_char CHR 0x2C value of
                  None \<Rightarrow> Inr fs
                | Some comma \<Rightarrow>
                    if comma + 1 \<ge> length value then Inr fs
                    else Inr (fs @ [\<lparr> original_url =
                                         dict_get attributes (''data-savepage-'' @ attribute)
                                           (Some []),
                                       attribute = attribute,
                                       start = getpos,
                                       next_offset = None \<rparr>])))"

text \<open>The loop itself: an exception in one round ends it.\<close>

fun starttag_attributes ::
  "(string \<times> attribute_value) list \<Rightarrow> LineOffset \<Rightarrow> EmbeddedFileCandidate list
     \<Rightarrow> (string \<times> attribute_value) list \<Rightarrow> error + EmbeddedFileCandidate list" where
  "starttag_attributes attributes getpos fs [] = Inr fs"
| "starttag_attributes attributes getpos fs (item # items) =
     ebind (starttag_attribute attributes getpos fs item)
       (\<lambda>fs'. starttag_attributes attributes getpos fs' items)"

text \<open>
  \<open>handle_starttag(tag, attrs)\<close>. The result is the list \<open>files\<close> after the call, or the
  exception that leaves the call; nothing catches it on the way out of \<open>feed\<close> and
  \<open>gather_embedded_files\<close>, so the parser and its list are lost with it.
\<close>

definition handle_starttag ::
  "EmbeddedFileCandidate list \<Rightarrow> LineOffset \<Rightarrow> string \<Rightarrow> (string \<times> attribute_value) list
     \<Rightarrow> error + EmbeddedFileCandidate list" where
  "handle_starttag fs getpos tag attrs =
     (let fs1 = update_end_offset fs getpos in
      ebind (any_startswith_data attrs) (\<lambda>found.
        if \<not> found then Inr fs1
        else
          let attributes = dict_of attrs
          in starttag_attributes attributes getpos fs1 attributes))"

text \<open>
  The payload of a data URL is what follows its first comma; \<open>is_data_url\<close> holds of an
  attribute value that begins with \<open>data:\<close>, and \<open>carries_payload\<close> of one that has a
  payload as well; \<open>candidate\<close> is what \<open>handle_starttag\<close> records for an attribute.
\<close>

definition payload :: "string \<Rightarrow> string" where
  "payload value = drop 1 (dropWhile (\<lambda>c. c \<noteq> CHR 0x2C) value)"

definition is_data_url :: "attribute_value \<Rightarrow> bool" where
  "is_data_url value = (case value of None \<Rightarrow> False | Some v \<Rightarrow> startswith v ''data:'')"

definition carries_payload :: "attribute_value \<Rightarrow> bool" where
  "carries_payload value =
     (case value of None \<Rightarrow> False
      | Some v \<Rightarrow> startswith v ''data:'' \<and> payload v \<noteq> [])"

definition candidate ::
  "(string \<times> attribute_value) list \<Rightarrow> LineOffset \<Rightarrow> string \<times> attribute_value
     \<Rightarrow> EmbeddedFileCandidate" where
  "candidate attributes getpos item =
     \<lparr> original_url = dict_get attributes (''data-savepage-'' @ fst item) (Some []),
       attribute = fst item, start = getpos, next_offset = None \<rparr>"

section \<open>The HTML mount source (\<open>html.py\<close>, class \<open>HTMLMountSource\<close>)\<close>






section \<open>Properties of the data-URL decoder\<close>

subsection \<open>The pattern on the URL prefixes listed in \<open>html.py\<close>\<close>

lemma DATA_URL_REGEX_examples:
  "DATA_URL_REGEX_match ''data:image/svg+xml;charset=utf-8;base64,PHN2Zz4='' =
     Some \<lparr> group_mime_type = Some ''image/svg+xml'',
            group_parameters = '';charset=utf-8;base64'', match_end = 40 \<rparr>"
  "DATA_URL_REGEX_match ''data:image/x-icon;,'' =
     Some \<lparr> group_mime_type = Some ''image/x-icon'', group_parameters = '';'',
            match_end = 19 \<rparr>"
  "DATA_URL_REGEX_match ''data: image/png;base64,iVBO'' =
     Some \<lparr> group_mime_type = Some '' image/png'', group_parameters = '';base64'',
            match_end = 23 \<rparr>"
  "DATA_URL_REGEX_match ''data:,plain text'' =
     Some \<lparr> group_mime_type = None, group_parameters = [], match_end = 6 \<rparr>"
  "DATA_URL_REGEX_match ''data:text,no slash'' = None"
  "DATA_URL_REGEX_match ''data:text/html'' = None"
  "DATA_URL_REGEX_match ''https://example.com/a.png'' = None"
  by code_simp+

subsection \<open>Splitting and suffixes\<close>

lemma split_char_not_Nil: "split_char c s \<noteq> []"
  by (induction s) (auto split: list.splits)

lemma split_char_no_sep: "c \<notin> set t \<Longrightarrow> split_char c t = [t]"
  by (induction t) auto

lemma split_char_append:
  "split_char c (p @ c # t) = split_char c p @ split_char c t"
proof (induction p)
  case Nil
  show ?case by simp
next
  case (Cons x p)
  obtain q qs where q: "split_char c p = q # qs"
    using split_char_not_Nil [of c p] by (cases "split_char c p") auto
  show ?case
    by (simp add: Cons q)
qed

lemma last_split_char:
  "c \<notin> set t \<Longrightarrow> last (split_char c (p @ c # t)) = t"
  by (simp add: split_char_append split_char_not_Nil split_char_no_sep)

lemma suffix_after_last:
  assumes "c \<notin> set t"
  shows "rev (takeWhile (\<lambda>x. x \<noteq> c) (rev (p @ c # t))) = t"
proof -
  have "takeWhile (\<lambda>x. x \<noteq> c) (rev t) = rev t"
    using assms by auto
  then have "takeWhile (\<lambda>x. x \<noteq> c) (rev t @ c # rev p) = rev t"
    by (simp add: takeWhile_tail)
  then show ?thesis by simp
qed

lemma endswith_append: "endswith (q @ p) p"
  by (simp add: endswith_def)

lemma endswithD: "endswith s p \<Longrightarrow> \<exists>q. s = q @ p"
  unfolding endswith_def
  by (metis append_take_drop_id)

text \<open>
  In a text that holds a semicolon, \<open>endswith(';base64')\<close> says that the piece behind
  the last semicolon is \<open>base64\<close>, character for character.
\<close>

lemma endswith_last_token:
  assumes "CHR 0x3B \<in> set ps"
  shows "endswith ps '';base64'' \<longleftrightarrow> last (split_char CHR 0x3B ps) = ''base64''"
proof -
  from assms obtain p t where ps: "ps = p @ CHR 0x3B # t" and t: "CHR 0x3B \<notin> set t"
    using split_list_last by fastforce
  have l: "last (split_char CHR 0x3B ps) = t"
    using t by (simp add: ps last_split_char)
  show ?thesis
  proof
    assume "endswith ps '';base64''"
    then obtain q where q: "ps = q @ CHR 0x3B # ''base64''"
      using endswithD by fastforce
    have "rev (takeWhile (\<lambda>x. x \<noteq> CHR 0x3B) (rev ps)) = ''base64''"
      unfolding q by (rule suffix_after_last) simp
    moreover have "rev (takeWhile (\<lambda>x. x \<noteq> CHR 0x3B) (rev ps)) = t"
      unfolding ps using t by (rule suffix_after_last)
    ultimately show "last (split_char CHR 0x3B ps) = ''base64''"
      using l by simp
  next
    assume "last (split_char CHR 0x3B ps) = ''base64''"
    then have "ps = p @ '';base64''" using l ps by simp
    then show "endswith ps '';base64''"
      using endswith_append [of p "'';base64''"] by simp
  qed
qed

lemma scan_parameters_semicolon:
  "scan_parameters s \<noteq> [] \<Longrightarrow> CHR 0x3B \<in> set (scan_parameters s)"
  by (cases s) (auto split: if_splits)

lemma match_parameters_semicolon:
  "DATA_URL_REGEX_match d = Some m \<Longrightarrow> group_parameters m \<noteq> [] \<Longrightarrow>
     CHR 0x3B \<in> set (group_parameters m)"
  by (auto simp: DATA_URL_REGEX_match_def Let_def scan_parameters_semicolon
           split: if_splits)

subsection \<open>The loop over the parameters\<close>

lemma apply_parameter_utf8:
  "is_utf8_parameter t \<Longrightarrow> apply_parameter L e t = ''utf8''"
  by (auto simp: apply_parameter_def is_utf8_parameter_def Let_def)

lemma apply_parameter_other:
  "\<not> is_charset_parameter t \<Longrightarrow> apply_parameter L ''utf8'' t = ''utf8''"
  by (auto simp: apply_parameter_def is_charset_parameter_def Let_def split: option.splits)

lemma foldl_keeps_utf8:
  "\<forall>t \<in> set ts. \<not> is_charset_parameter t \<Longrightarrow>
     foldl (apply_parameter L) ''utf8'' ts = ''utf8''"
  by (induction ts) (auto simp: apply_parameter_other)

subsection \<open>The encoding after a \<open>utf8\<close> token\<close>

text \<open>
  Claim C1, as stated, fails: for a parameter token \<open>utf8\<close> the constructor stores the
  string \<open>utf8\<close>, not \<open>utf-8\<close>. The URL of the claim, run through the constructor, gives
  \<open>encoding = utf8\<close> (the repository's test \<open>test_utf8\<close> asserts the same string). A later
  \<open>charset\<close> parameter overrides the token: with \<open>;utf8;charset=us-ascii\<close> the encoding is
  \<open>ascii\<close>.
\<close>

theorem utf8_encoding_counterexample:
  "DataURLFile_init ascii_pylib
     (Some ''data:text/css;utf8,body {&#37;20font-family: Arial, sans-serif };'') =
     Inr \<lparr> mime_type = ''text/css'', valid = False, encoding = ''utf8'', is_base64 = False,
           contents = ''body { font-family: Arial, sans-serif };'' \<rparr>
   \<and> DataURLFile_init ascii_pylib (Some ''data:text/css;utf8;charset=us-ascii,body'') =
     Inr \<lparr> mime_type = ''text/css'', valid = False, encoding = ''ascii'', is_base64 = False,
           contents = ''body'' \<rparr>"
  by code_simp

text \<open>
  Claim C1, amended: if the parameter list of a data URL holds a token that is \<open>utf-8\<close>
  or \<open>utf8\<close> after trimming and lower-casing, and no token behind it is a \<open>charset\<close>
  assignment, then the constructed \<open>DataURLFile\<close> has the encoding \<open>utf8\<close>.
\<close>

theorem utf8_parameter_encoding:
  assumes "DataURLFile_init L data_url = Inr f"
      and "DATA_URL_REGEX_match (unquoted_data L data_url) = Some m"
      and "split_char CHR 0x3B (group_parameters m) = before @ token # after"
      and "is_utf8_parameter token"
      and "\<forall>t \<in> set after. \<not> is_charset_parameter t"
  shows "encoding f = ''utf8''"
proof -
  have ne: "group_parameters m \<noteq> []"
  proof
    assume "group_parameters m = []"
    with assms(3) have "before @ token # after = [[]]" by simp
    then have "token = []" by (cases before) auto
    with assms(4) show False by (simp add: is_utf8_parameter_def str_strip_def str_lower_def)
  qed
  have "encoding f = foldl (apply_parameter L) ''ascii'' (before @ token # after)"
    using assms(1,2) ne assms(3)
    by (auto simp: DataURLFile_init_def Let_def ebind_def split: sum.splits)
  also have "\<dots> = foldl (apply_parameter L) ''utf8'' after"
    by (simp add: apply_parameter_utf8 [OF assms(4)])
  also have "\<dots> = ''utf8''"
    using assms(5) by (rule foldl_keeps_utf8)
  finally show ?thesis .
qed

theorem utf8_parameter_encoding_witness:
  "DataURLFile_init ascii_pylib (Some ''data:text/css; UTF-8 ;x=1,body'') =
     Inr \<lparr> mime_type = ''text/css'', valid = False, encoding = ''utf8'', is_base64 = False,
           contents = ''body'' \<rparr>
   \<and> DATA_URL_REGEX_match (unquoted_data ascii_pylib (Some ''data:text/css; UTF-8 ;x=1,body'')) =
     Some \<lparr> group_mime_type = Some ''text/css'', group_parameters = ''; UTF-8 ;x=1'',
            match_end = 26 \<rparr>
   \<and> split_char CHR 0x3B ''; UTF-8 ;x=1'' = [[]] @ '' UTF-8 '' # [''x=1'']
   \<and> is_utf8_parameter '' UTF-8 ''
   \<and> \<not> is_charset_parameter ''x=1''
   \<and> encoding \<lparr> mime_type = ''text/css'', valid = False, encoding = ''utf8'',
                 is_base64 = False, contents = ''body'' \<rparr> = ''utf8''"
proof -
  have h1: "DataURLFile_init ascii_pylib (Some ''data:text/css; UTF-8 ;x=1,body'') =
     Inr \<lparr> mime_type = ''text/css'', valid = False, encoding = ''utf8'', is_base64 = False,
           contents = ''body'' \<rparr>"
    by code_simp
  have h2: "DATA_URL_REGEX_match
              (unquoted_data ascii_pylib (Some ''data:text/css; UTF-8 ;x=1,body'')) =
     Some \<lparr> group_mime_type = Some ''text/css'', group_parameters = ''; UTF-8 ;x=1'',
            match_end = 26 \<rparr>"
    by code_simp
  have h3: "split_char CHR 0x3B
              (group_parameters \<lparr> group_mime_type = Some ''text/css'',
                                  group_parameters = ''; UTF-8 ;x=1'', match_end = 26 \<rparr>) =
            [[]] @ '' UTF-8 '' # [''x=1'']"
    by code_simp
  have h4: "is_utf8_parameter '' UTF-8 ''"
    by code_simp
  have h5': "\<not> is_charset_parameter ''x=1''"
    by code_simp
  then have h5: "\<forall>t \<in> set [''x=1'']. \<not> is_charset_parameter t"
    by simp
  have h3': "split_char CHR 0x3B ''; UTF-8 ;x=1'' = [[]] @ '' UTF-8 '' # [''x=1'']"
    using h3 by simp
  show ?thesis
    using utf8_parameter_encoding [OF h1 h2 h3 h4 h5] h1 h2 h3' h4 h5' by blast
qed

subsection \<open>The base64 flag\<close>

text \<open>
  Claim C3, as stated, fails: the flag is decided by \<open>parameters.endswith(';base64')\<close>,
  which neither trims nor folds case. For \<open>data:text/plain;BASE64,aGk=\<close> the last token
  is \<open>base64\<close> after lower-casing, yet \<open>is_base64\<close> stays false and the payload is
  kept as text.
\<close>

theorem is_base64_counterexample:
  "map_option group_parameters (DATA_URL_REGEX_match ''data:text/plain;BASE64,aGk='') =
     Some '';BASE64''
   \<and> str_lower (str_strip (last (split_char CHR 0x3B '';BASE64''))) = ''base64''
   \<and> DataURLFile_init ascii_pylib (Some ''data:text/plain;BASE64,aGk='') =
     Inr \<lparr> mime_type = ''text/plain'', valid = False, encoding = ''ascii'',
           is_base64 = False, contents = ''aGk='' \<rparr>"
  by code_simp

text \<open>
  Claim C3, amended: constructing a \<open>DataURLFile\<close> sets \<open>is_base64\<close> to true if and only
  if the URL matches and the last parameter token is exactly \<open>base64\<close>, without trimming
  and with case respected.
\<close>

theorem is_base64_iff_last_token:
  assumes "DataURLFile_init L data_url = Inr f"
  shows "is_base64 f \<longleftrightarrow>
           (\<exists>m. DATA_URL_REGEX_match (unquoted_data L data_url) = Some m
               \<and> group_parameters m \<noteq> []
               \<and> last (split_char CHR 0x3B (group_parameters m)) = ''base64'')"
proof (cases "DATA_URL_REGEX_match (unquoted_data L data_url)")
  case None
  with assms show ?thesis
    by (auto simp: DataURLFile_init_def)
next
  case (Some m)
  with assms have "is_base64 f \<longleftrightarrow>
      (group_parameters m \<noteq> [] \<and> endswith (group_parameters m) '';base64'')"
    by (auto simp: DataURLFile_init_def Let_def ebind_def split: sum.splits)
  with Some show ?thesis
    using endswith_last_token [OF match_parameters_semicolon [OF Some]] by auto
qed

theorem is_base64_iff_last_token_witness:
  "DataURLFile_init ascii_pylib (Some ''data:text/plain;base64,aGk='') =
     Inr \<lparr> mime_type = ''text/plain'', valid = False, encoding = ''ascii'',
           is_base64 = True, contents = ''hi'' \<rparr>
   \<and> (is_base64 \<lparr> mime_type = ''text/plain'', valid = False, encoding = ''ascii'',
                   is_base64 = True, contents = ''hi'' \<rparr> \<longleftrightarrow>
        (\<exists>m. DATA_URL_REGEX_match
                (unquoted_data ascii_pylib (Some ''data:text/plain;base64,aGk='')) = Some m
            \<and> group_parameters m \<noteq> []
            \<and> last (split_char CHR 0x3B (group_parameters m)) = ''base64''))"
proof -
  have h: "DataURLFile_init ascii_pylib (Some ''data:text/plain;base64,aGk='') =
     Inr \<lparr> mime_type = ''text/plain'', valid = False, encoding = ''ascii'',
           is_base64 = True, contents = ''hi'' \<rparr>"
    by code_simp
  show ?thesis
    using is_base64_iff_last_token [OF h] h by blast
qed

subsection \<open>Texts that are not data URLs\<close>

text \<open>
  Claim C8: when the text, after \<open>html.unescape\<close> and \<open>urllib.parse.unquote\<close> as the
  constructor applies them, does not match \<open>DATA_URL_REGEX\<close>, the constructor raises
  nothing and yields an empty stream with \<open>mime_type = text/plain\<close>,
  \<open>encoding = ascii\<close> and \<open>is_base64 = False\<close>. This includes the call without an
  argument.
\<close>

theorem DataURLFile_no_match:
  assumes "DATA_URL_REGEX_match (unquoted_data L data_url) = None"
  shows "DataURLFile_init L data_url =
           Inr \<lparr> mime_type = ''text/plain'', valid = False, encoding = ''ascii'',
                 is_base64 = False, contents = [] \<rparr>"
  using assms by (simp add: DataURLFile_init_def)

theorem DataURLFile_no_match_witness:
  "DATA_URL_REGEX_match (unquoted_data ascii_pylib (Some ''data:image/png;base64'')) = None
   \<and> DataURLFile_init ascii_pylib (Some ''data:image/png;base64'') =
       Inr \<lparr> mime_type = ''text/plain'', valid = False, encoding = ''ascii'',
             is_base64 = False, contents = [] \<rparr>"
proof -
  have h: "DATA_URL_REGEX_match
             (unquoted_data ascii_pylib (Some ''data:image/png;base64'')) = None"
    by code_simp
  show ?thesis
    using DataURLFile_no_match [OF h] h by blast
qed

subsection \<open>The attribute \<open>valid\<close>\<close>

text \<open>
  Claim C10: every constructed \<open>DataURLFile\<close>, also one made from a well-formed data
  URL, has \<open>valid = False\<close>: the attribute is initialised to false and no path of the
  constructor assigns it again.
\<close>

theorem DataURLFile_valid_False:
  assumes "DataURLFile_init L data_url = Inr f"
  shows "valid f = False"
  using assms
  by (auto simp: DataURLFile_init_def Let_def ebind_def split: option.splits sum.splits)

theorem DataURLFile_valid_False_witness:
  "DataURLFile_init ascii_pylib (Some ''data:image/gif;base64,R0lGODdh'') =
     Inr \<lparr> mime_type = ''image/gif'', valid = False, encoding = ''ascii'',
           is_base64 = True, contents = ''GIF87a'' \<rparr>
   \<and> valid \<lparr> mime_type = ''image/gif'', valid = False, encoding = ''ascii'',
              is_base64 = True, contents = ''GIF87a'' \<rparr> = False"
proof -
  have h: "DataURLFile_init ascii_pylib (Some ''data:image/gif;base64,R0lGODdh'') =
     Inr \<lparr> mime_type = ''image/gif'', valid = False, encoding = ''ascii'',
           is_base64 = True, contents = ''GIF87a'' \<rparr>"
    by code_simp
  show ?thesis
    using DataURLFile_valid_False [OF h] h by blast
qed

section \<open>Properties of the AR parser\<close>

subsection \<open>Numeric header fields\<close>

lemma digit_not_space: "is_digit c \<Longrightarrow> \<not> bytes_isspace c"
  by (auto simp: is_digit_def bytes_isspace_def)

lemma digit_long_value: "is_digit c \<Longrightarrow> long_digit_value c = digit_value c"
  by (auto simp: is_digit_def long_digit_value_def digit_value_def Let_def)

lemma digit_not_special:
  "is_digit c \<Longrightarrow> c \<noteq> CHR ''_'' \<and> c \<noteq> CHR ''-'' \<and> c \<noteq> CHR ''+'' \<and> c \<noteq> CHR ''o'' \<and> c \<noteq> CHR ''O''"
  by (auto simp: is_digit_def)

lemma space_is_space: "bytes_isspace CHR '' ''"
  by (simp add: bytes_isspace_def)

lemma no_double_underscore: "CHR ''_'' \<notin> set s \<Longrightarrow> \<not> double_underscore s"
  by (induction s rule: double_underscore.induct) auto

lemma fullmatch_iff:
  "DECIMAL_NUMBER_REGEX_fullmatch f \<longleftrightarrow> list_all (\<lambda>c. c = CHR '' '') (dropWhile is_digit f)"
  by (simp add: DECIMAL_NUMBER_REGEX_fullmatch_def list_all_iff)

lemma dropWhile_space_digits:
  "list_all is_digit ds \<Longrightarrow> dropWhile bytes_isspace ds = ds"
  by (cases ds) (auto simp: digit_not_space)

lemma drop_to_last:
  assumes "ds \<noteq> []"
  shows "drop (length ds - Suc 0) ds = [last ds]"
proof -
  have "drop (length (butlast ds)) (butlast ds @ [last ds]) = [last ds]"
    by simp
  then show ?thesis using assms by simp
qed

lemma bytes_strip_append:
  assumes ds: "list_all is_digit ds" and sp: "list_all (\<lambda>c. c = CHR '' '') sp"
  shows "bytes_strip (ds @ sp) = ds"
proof -
  have spc: "\<And>c. c \<in> set sp \<Longrightarrow> bytes_isspace c"
    using sp space_is_space by (simp add: list_all_iff)
  show ?thesis
  proof (cases ds)
    case Nil
    have e: "dropWhile bytes_isspace sp = []" using spc by simp
    show ?thesis unfolding Nil bytes_strip_def append_Nil e by simp
  next
    case (Cons d rest)
    then have "\<not> bytes_isspace d" using ds digit_not_space by simp
    then have 1: "dropWhile bytes_isspace (ds @ sp) = ds @ sp"
      using Cons by simp
    have 2: "dropWhile bytes_isspace (rev sp @ rev ds) = dropWhile bytes_isspace (rev ds)"
      by (rule dropWhile_append2) (simp add: spc)
    have "list_all is_digit (rev ds)" using ds by (simp add: list_all_iff)
    then have 3: "dropWhile bytes_isspace (rev ds) = rev ds"
      by (rule dropWhile_space_digits)
    show ?thesis
      by (simp add: bytes_strip_def 1 2 3)
  qed
qed

lemma list_all_takeWhile: "list_all P (takeWhile P xs)"
  by (induction xs) auto

lemma bytes_strip_padded:
  assumes "list_all (\<lambda>c. c = CHR '' '') (dropWhile is_digit f)"
  shows "bytes_strip f = takeWhile is_digit f"
  using bytes_strip_append [OF list_all_takeWhile [of is_digit f] assms] by simp

lemma foldl_digits:
  "list_all is_digit ds \<Longrightarrow>
     foldl (\<lambda>acc c. acc * int base + int (long_digit_value c)) a ds =
     foldl (\<lambda>acc c. acc * int base + int (digit_value c)) a ds"
  by (induction ds arbitrary: a) (auto simp: digit_long_value)

lemma digits_no_prefix:
  assumes "list_all is_digit ds"
  shows "\<not> startswith ds ''-''" "\<not> startswith ds ''+''" "\<not> startswith ds ''_''"
        "\<not> startswith ds ''0o''" "\<not> startswith ds ''0O''"
proof -
  show "\<not> startswith ds ''-''" "\<not> startswith ds ''+''" "\<not> startswith ds ''_''"
    using assms digit_not_special by (cases ds; auto simp: startswith_def)+
  show "\<not> startswith ds ''0o''" "\<not> startswith ds ''0O''"
  proof -
    have "\<And>a b r. ds = a # b # r \<Longrightarrow> is_digit b" using assms by simp
    then show "\<not> startswith ds ''0o''" "\<not> startswith ds ''0O''"
      using digit_not_special
      by (cases ds; cases "tl ds"; auto simp: startswith_def)+
  qed
qed

lemma digits_no_suffix:
  assumes "ds \<noteq> []" "list_all is_digit ds"
  shows "\<not> endswith ds ''_''"
proof -
  have "is_digit (last ds)" using assms by (simp add: list_all_iff)
  then have "last ds \<noteq> CHR ''_''" using digit_not_special by blast
  then show ?thesis
    using drop_to_last [OF assms(1)] by (simp add: endswith_def)
qed

lemma py_int_digits_valid:
  assumes ne: "ds \<noteq> []" and dg: "list_all is_digit ds"
      and ok: "list_all (\<lambda>c. digit_value c < base) ds"
  shows "py_int base ds = Some (digits_value base ds)"
proof -
  have all: "\<And>c. c \<in> set ds \<Longrightarrow> long_digit_value c < base"
    using dg ok by (simp add: list_all_iff digit_long_value)
  have nous: "CHR ''_'' \<notin> set ds" using dg digit_not_special by (auto simp: list_all_iff)
  have s1: "dropWhile bytes_isspace ds = ds"
    using dg by (rule dropWhile_space_digits)
  have body: "takeWhile (\<lambda>c. long_digit_value c < base \<or> c = CHR ''_'') ds = ds"
    using all by simp
  have rest: "dropWhile (\<lambda>c. long_digit_value c < base \<or> c = CHR ''_'') ds = []"
    using all by simp
  have du: "\<not> double_underscore ds" using nous by (rule no_double_underscore)
  have fil: "filter (\<lambda>c. c \<noteq> CHR ''_'') ds = ds" using nous by (auto simp: filter_id_conv)
  show ?thesis
    unfolding py_int_def Let_def s1
    using digits_no_prefix [OF dg] digits_no_suffix [OF ne dg] ne du
    by (simp add: body rest fil foldl_digits [OF dg] digits_value_def)
qed

lemma py_int_digits_invalid:
  assumes dg: "list_all is_digit ds"
      and bad: "\<not> list_all (\<lambda>c. digit_value c < base) ds"
  shows "py_int base ds = None"
proof -
  let ?P = "\<lambda>c. long_digit_value c < base \<or> c = CHR ''_''"
  have s1: "dropWhile bytes_isspace ds = ds"
    using dg by (rule dropWhile_space_digits)
  from bad obtain c where c: "c \<in> set ds" "\<not> digit_value c < base"
    by (auto simp: list_all_iff)
  then have "\<not> ?P c"
    using dg digit_not_special [of c] by (auto simp: list_all_iff digit_long_value)
  with c(1) have ne: "dropWhile ?P ds \<noteq> []"
    by (auto simp: dropWhile_eq_Nil_conv)
  have "set (dropWhile ?P ds) \<subseteq> set ds" by (rule set_dropWhileD [THEN subsetI])
  then have "list_all is_digit (dropWhile ?P ds)"
    using dg by (auto simp: list_all_iff)
  then have "dropWhile bytes_isspace (dropWhile ?P ds) = dropWhile ?P ds"
    by (rule dropWhile_space_digits)
  with ne show ?thesis
    unfolding py_int_def Let_def s1
    using digits_no_prefix [OF dg] by simp
qed

lemma parse_int_eq:
  "parse_int f base d =
     (if padded_digits base f then Inr (padded_value base d f)
      else Inl (ValueError
                  (if list_all (\<lambda>c. c = CHR '' '') (dropWhile is_digit f)
                   then ''invalid literal for int()''
                   else ''Expected integer encoded as string padded with spaces'')))"
proof (cases "list_all (\<lambda>c. c = CHR '' '') (dropWhile is_digit f)")
  case False
  then show ?thesis
    by (simp add: parse_int_def fullmatch_iff padded_digits_def)
next
  case sp: True
  note strip = bytes_strip_padded [OF sp]
  show ?thesis
  proof (cases "takeWhile is_digit f = []")
    case True
    then show ?thesis
      using sp by (simp add: parse_int_def fullmatch_iff strip padded_digits_def padded_value_def)
  next
    case ne: False
    have dg: "list_all is_digit (takeWhile is_digit f)" by (rule list_all_takeWhile)
    show ?thesis
    proof (cases "list_all (\<lambda>c. digit_value c < base) (takeWhile is_digit f)")
      case True
      then show ?thesis
        using sp ne py_int_digits_valid [OF ne dg True]
        by (simp add: parse_int_def fullmatch_iff strip padded_digits_def padded_value_def)
    next
      case False
      then show ?thesis
        using sp ne py_int_digits_invalid [OF dg False]
        by (simp add: parse_int_def fullmatch_iff strip padded_digits_def)
    qed
  qed
qed

lemma parse_header_eq:
  "parse_header is_thin h ti =
     (if unpack_field h 58 2 \<noteq> [CHR 0x60, CHR 0x0A]
      then Inl (RatarmountError ''Invalid AR file header ending characters'')
      else if padded_digits 10 (unpack_field h 16 12) \<and> padded_digits 10 (unpack_field h 28 6)
              \<and> padded_digits 10 (unpack_field h 34 6) \<and> padded_digits 8 (unpack_field h 40 8)
              \<and> padded_digits 10 (unpack_field h 48 10)
      then Inr (rstrip_chars [CHR '' '', CHR 0x00] (unpack_field h 0 16),
                ti \<lparr> ti_mtime := padded_value 10 0 (unpack_field h 16 12),
                     ti_uid := padded_value 10 0 (unpack_field h 28 6),
                     ti_gid := padded_value 10 0 (unpack_field h 34 6),
                     ti_mode := (if is_thin
                                 then (padded_value 8 432 (unpack_field h 40 8) OR S_IFREG) OR S_IFLNK
                                 else padded_value 8 432 (unpack_field h 40 8) OR S_IFREG),
                     ti_size := padded_value 10 0 (unpack_field h 48 10) \<rparr>)
      else Inl (RatarmountError ''Invalid AR archive!''))"
  by (simp add: parse_header_def parse_int_eq ebind_def)

text \<open>
  Claim C2, as stated, fails: digits with white space on both sides do not parse. The
  pattern \<open>[0-9]* *\<close> must match the whole field, so a space in front of the digits is a
  \<open>ValueError\<close> and the record is refused. A field of tabs is empty after
  \<open>strip()\<close>, yet it is refused as well and the default is not used.
\<close>

theorem numeric_field_counterexample:
  "parse_int '' 1700000000 '' 10 0 =
     Inl (ValueError ''Expected integer encoded as string padded with spaces'')
   \<and> parse_header False
       (''bar/            '' @ '' 1700000000 '' @ ''1000  '' @ ''1000  '' @ ''100644  ''
        @ ''4         '' @ [CHR 0x60, CHR 0x0A])
       TarInfo_new = Inl (RatarmountError ''Invalid AR archive!'')
   \<and> parse_int [CHR 0x09, CHR 0x09, CHR 0x09, CHR 0x09, CHR 0x09, CHR 0x09] 10 0 =
     Inl (ValueError ''Expected integer encoded as string padded with spaces'')"
  by code_simp

text \<open>
  Claim C2, amended: in every 60-byte AR header record with the terminator in place, each
  numeric field (mtime, uid, gid, mode, size) parses exactly when it is made of digits of
  its base (octal for mode, decimal for the others) followed by nothing but spaces; white
  space in front of the digits is not accepted. A field of spaces only yields the default
  (\<open>0o660 = 432\<close> for mode, 0 for the others). Any other content of one of the five
  fields, in particular any character that is neither a digit nor a space, fails the record
  with \<open>RatarmountError("Invalid AR archive!")\<close>.
\<close>

theorem parse_header_numeric_fields:
  "parse_header is_thin h ti =
     (if unpack_field h 58 2 \<noteq> [CHR 0x60, CHR 0x0A]
      then Inl (RatarmountError ''Invalid AR file header ending characters'')
      else if padded_digits 10 (unpack_field h 16 12) \<and> padded_digits 10 (unpack_field h 28 6)
              \<and> padded_digits 10 (unpack_field h 34 6) \<and> padded_digits 8 (unpack_field h 40 8)
              \<and> padded_digits 10 (unpack_field h 48 10)
      then Inr (rstrip_chars [CHR '' '', CHR 0x00] (unpack_field h 0 16),
                ti \<lparr> ti_mtime := padded_value 10 0 (unpack_field h 16 12),
                     ti_uid := padded_value 10 0 (unpack_field h 28 6),
                     ti_gid := padded_value 10 0 (unpack_field h 34 6),
                     ti_mode := (if is_thin
                                 then (padded_value 8 432 (unpack_field h 40 8) OR S_IFREG) OR S_IFLNK
                                 else padded_value 8 432 (unpack_field h 40 8) OR S_IFREG),
                     ti_size := padded_value 10 0 (unpack_field h 48 10) \<rparr>)
      else Inl (RatarmountError ''Invalid AR archive!''))"
  by (rule parse_header_eq)

subsection \<open>One round of the loop\<close>

lemma foldl_digits_nonneg:
  "0 \<le> a \<Longrightarrow> 0 \<le> foldl (\<lambda>acc c. acc * int base + int (digit_value c)) a ds"
  by (induction ds arbitrary: a) auto

lemma digits_value_nonneg: "0 \<le> digits_value base ds"
  by (simp add: digits_value_def foldl_digits_nonneg)

lemma padded_value_nonneg: "0 \<le> d \<Longrightarrow> 0 \<le> padded_value base d field_bytes"
  by (simp add: padded_value_def digits_value_nonneg)

lemma parse_header_InrD:
  assumes "parse_header is_thin h t0 = Inr (nm, t)"
  shows "nm = rstrip_chars [CHR '' '', CHR 0x00] (unpack_field h 0 16)"
    and "ti_offset t = ti_offset t0" and "ti_offset_data t = ti_offset_data t0"
    and "ti_size t = padded_value 10 0 (unpack_field h 48 10)"
    and "ti_mode t = (if is_thin
                      then (padded_value 8 432 (unpack_field h 40 8) OR S_IFREG) OR S_IFLNK
                      else padded_value 8 432 (unpack_field h 40 8) OR S_IFREG)"
  using assms unfolding parse_header_eq
  by (auto split: if_splits)

lemma apply_index_offsets:
  "ti_offset (apply_index is_thin ln f) = ti_offset f"
  "ti_offset_data (apply_index is_thin ln f) = ti_offset_data f"
  "ti_size (apply_index is_thin ln f) = ti_size f"
  "ti_mode (apply_index is_thin ln f) = ti_mode f"
  by (simp_all add: apply_index_def)

lemma resolve_name_offsets:
  "ti_offset (resolve_name is_thin ln nm t) = ti_offset t"
  "ti_offset_data (resolve_name is_thin ln nm t) = ti_offset_data t"
  "ti_size (resolve_name is_thin ln nm t) = ti_size t"
  "ti_mode (resolve_name is_thin ln nm t) = ti_mode t"
  by (simp_all add: resolve_name_def)

lemma read_bsd_name_InrD:
  assumes "read_bsd_name data offs nm t = Inr (nm1, t1)" and le: "offs \<le> length data"
  shows "ti_offset t1 = ti_offset t" and "ti_mode t1 = ti_mode t"
    and "if startswith nm ''#1/''
         then (\<exists>n. py_int 10 (drop 3 nm) = Some (int n)
                   \<and> offs + n \<le> length data
                   \<and> ti_offset_data t1 = ti_offset_data t + n
                   \<and> ti_size t1 = ti_size t - int n
                   \<and> nm1 = take n (drop offs data))
         else t1 = t \<and> nm1 = nm"
proof -
  show "ti_offset t1 = ti_offset t" "ti_mode t1 = ti_mode t"
    using assms(1)
    by (auto simp: read_bsd_name_def Let_def split: if_splits option.splits)
  show "if startswith nm ''#1/''
         then (\<exists>n. py_int 10 (drop 3 nm) = Some (int n)
                   \<and> offs + n \<le> length data
                   \<and> ti_offset_data t1 = ti_offset_data t + n
                   \<and> ti_size t1 = ti_size t - int n
                   \<and> nm1 = take n (drop offs data))
         else t1 = t \<and> nm1 = nm"
  proof (cases "startswith nm ''#1/''")
    case False
    then show ?thesis using assms(1) by (simp add: read_bsd_name_def)
  next
    case True
    with assms(1) obtain N where N: "py_int 10 (drop 3 nm) = Some N"
      by (cases "py_int 10 (drop 3 nm)") (auto simp: read_bsd_name_def)
    have nn: "0 \<le> N"
    proof (rule ccontr)
      assume "\<not> 0 \<le> N"
      then have "int (length (drop offs data)) \<noteq> N" by linarith
      with assms(1) True N \<open>\<not> 0 \<le> N\<close> show False
        by (simp add: read_bsd_name_def Let_def)
    qed
    from assms(1) True N nn
    have len: "int (length (take (nat N) (drop offs data))) = N"
      and t1: "t1 = t \<lparr> ti_offset_data := ti_offset_data t + nat N, ti_size := ti_size t - N \<rparr>"
      and nm1: "nm1 = take (nat N) (drop offs data)"
      by (auto simp: read_bsd_name_def Let_def split: if_splits)
    from len nn le have "offs + nat N \<le> length data"
      by (simp add: min_def split: if_splits)
    with True N nn t1 nm1 show ?thesis
      by (auto intro!: exI [of _ "nat N"])
  qed
qed

text \<open>What one round does to the list of records.\<close>

lemma ar_member_files:
  assumes step: "ar_member is_thin data st = Inr st'"
      and full: "pos st + HEADER_SIZE \<le> length data"
  shows "(header_name data (pos st) = ''/'' \<and> files st' = files st \<and> long_names st' = long_names st)
       \<or> (header_name data (pos st) = ''//''
           \<and> (\<exists>table. long_names st' = Some table
                  \<and> files st' = map (apply_index is_thin (Some table)) (files st)))
       \<or> (header_name data (pos st) \<noteq> ''/'' \<and> header_name data (pos st) \<noteq> ''//''
           \<and> long_names st' = long_names st
           \<and> (\<exists>nm1 t1 nm t.
                  parse_header is_thin (take HEADER_SIZE (drop (pos st) data))
                    (TarInfo_new \<lparr> ti_offset := pos st,
                                   ti_offset_data := pos st + HEADER_SIZE \<rparr>) = Inr (nm, t)
                  \<and> read_bsd_name data (pos st + HEADER_SIZE) nm t = Inr (nm1, t1)
                  \<and> files st' = files st @ [resolve_name is_thin (long_names st) nm1 t1]))"
proof -
  let ?h = "take HEADER_SIZE (drop (pos st) data)"
  have len: "length ?h = HEADER_SIZE" using full by simp
  let ?t0 = "TarInfo_new \<lparr> ti_offset := pos st, ti_offset_data := pos st + HEADER_SIZE \<rparr>"
  from step len obtain nm t where ph: "parse_header is_thin ?h ?t0 = Inr (nm, t)"
    by (cases "parse_header is_thin ?h ?t0") (auto simp: ar_member_def Let_def ebind_def)
  have nm: "nm = header_name data (pos st)"
    using parse_header_InrD(1) [OF ph] by (simp add: header_name_def)
  show ?thesis
  proof (cases "nm = ''/''")
    case True
    with step len ph have "files st' = files st \<and> long_names st' = long_names st"
      by (auto simp: ar_member_def Let_def ebind_def)
    with True nm show ?thesis by simp
  next
    case ns: False
    show ?thesis
    proof (cases "nm = ''//''")
      case True
      obtain table p where rd: "read_gnu_index is_thin data (pos st + HEADER_SIZE) (ti_size t) = (table, p)"
        by (cases "read_gnu_index is_thin data (pos st + HEADER_SIZE) (ti_size t)")
      from step len ph True rd
      have "long_names st' = Some table
            \<and> files st' = map (apply_index is_thin (Some table)) (files st)"
        by (auto simp: ar_member_def Let_def ebind_def)
      with True nm show ?thesis by auto
    next
      case ng: False
      from step len ph ns ng obtain nm1 t1 where
        bsd: "read_bsd_name data (pos st + HEADER_SIZE) nm t = Inr (nm1, t1)"
        by (cases "read_bsd_name data (pos st + HEADER_SIZE) nm t")
           (auto simp: ar_member_def Let_def ebind_def)
      from step len ph ns ng bsd
      have "files st' = files st @ [resolve_name is_thin (long_names st) nm1 t1]
            \<and> long_names st' = long_names st"
        by (auto simp: ar_member_def Let_def ebind_def)
      with ns ng nm ph bsd show ?thesis by auto
    qed
  qed
qed

subsection \<open>Offsets of the emitted rows\<close>

lemma ar_loop_invariant:
  assumes loop: "ar_loop is_thin data st = Inr rows"
      and init: "\<forall>r \<in> set (files st). Q r"
      and round: "\<And>s s'. pos s + HEADER_SIZE \<le> length data \<Longrightarrow> ar_member is_thin data s = Inr s'
             \<Longrightarrow> \<forall>r \<in> set (files s). Q r \<Longrightarrow> \<forall>r \<in> set (files s'). Q r"
  shows "\<forall>r \<in> set rows. Q r"
proof -
  have "ar_loop t d s = Inr rows \<Longrightarrow> t = is_thin \<Longrightarrow> d = data
          \<Longrightarrow> \<forall>r \<in> set (files s). Q r \<Longrightarrow> \<forall>r \<in> set rows. Q r" for t d s
  proof (induction t d s rule: ar_loop.induct)
    case (1 t d s)
    let ?h = "take HEADER_SIZE (drop (pos s) d)"
    show ?case
    proof (cases "?h = []")
      case True
      with "1.prems"(1) have "rows = files s"
        by (subst (asm) ar_loop.simps) simp
      with "1.prems"(4) show ?thesis by simp
    next
      case ne: False
      show ?thesis
      proof (cases "length ?h < HEADER_SIZE")
        case True
        with ne "1.prems"(1) show ?thesis
          by (subst (asm) ar_loop.simps) (simp add: Let_def min_def split: if_splits)
      next
        case full: False
        then have le: "pos s + HEADER_SIZE \<le> length d"
          by (simp add: min_def HEADER_SIZE_def split: if_splits)
        from ne full "1.prems"(1) obtain s' where
          step: "ar_member t d s = Inr s'" and
          rest: "ar_loop t d s' = Inr rows"
          by (subst (asm) ar_loop.simps)
             (cases "ar_member t d s"; simp add: Let_def min_def split: if_splits)
        have "\<forall>r \<in> set (files s'). Q r"
          using round [of s s'] le step "1.prems"(2,3,4) by simp
        then show ?thesis
          using "1.IH" [OF refl ne full step rest "1.prems"(2,3)] by blast
      qed
    qed
  qed
  from this [OF loop refl refl init] show ?thesis .
qed

lemma new_member_offsets:
  assumes ph: "parse_header is_thin (take HEADER_SIZE (drop p data))
                 (TarInfo_new \<lparr> ti_offset := p, ti_offset_data := p + HEADER_SIZE \<rparr>) = Inr (nm, t)"
      and bsd: "read_bsd_name data (p + HEADER_SIZE) nm t = Inr (nm1, t1)"
      and full: "p + HEADER_SIZE \<le> length data"
      and r: "r = resolve_name is_thin ln nm1 t1"
  shows "ti_offset r < ti_offset_data r \<and> ti_offset_data r \<le> length data
         \<and> (case bsd_name_size data (ti_offset r) of
               None \<Rightarrow> ti_offset_data r = ti_offset r + 60
             | Some N \<Rightarrow> 0 \<le> N \<and> int (ti_offset_data r) = int (ti_offset r) + 60 + N)"
proof -
  have nm: "nm = header_name data p"
    using parse_header_InrD(1) [OF ph] by (simp add: header_name_def)
  have t: "ti_offset t = p" "ti_offset_data t = p + HEADER_SIZE"
    using parse_header_InrD(2,3) [OF ph] by simp_all
  note b = read_bsd_name_InrD [OF bsd full]
  have o: "ti_offset r = p" using r b(1) t by (simp add: resolve_name_offsets)
  show ?thesis
  proof (cases "startswith nm ''#1/''")
    case False
    with b(3) have "t1 = t" by simp
    with False show ?thesis
      using o r t full nm by (simp add: resolve_name_offsets bsd_name_size_def HEADER_SIZE_def)
  next
    case True
    with b(3) obtain n where n: "py_int 10 (drop 3 nm) = Some (int n)"
      "p + HEADER_SIZE + n \<le> length data" "ti_offset_data t1 = ti_offset_data t + n"
      by auto
    with True show ?thesis
      using o r t nm by (simp add: resolve_name_offsets bsd_name_size_def HEADER_SIZE_def)
  qed
qed

lemma ar_member_offsets:
  assumes le: "pos s + HEADER_SIZE \<le> length data"
      and step: "ar_member is_thin data s = Inr s'"
      and inv: "\<forall>r \<in> set (files s).
                 ti_offset r < ti_offset_data r \<and> ti_offset_data r \<le> length data
                 \<and> (case bsd_name_size data (ti_offset r) of
                       None \<Rightarrow> ti_offset_data r = ti_offset r + 60
                     | Some N \<Rightarrow> 0 \<le> N \<and> int (ti_offset_data r) = int (ti_offset r) + 60 + N)"
  shows "\<forall>r \<in> set (files s').
                 ti_offset r < ti_offset_data r \<and> ti_offset_data r \<le> length data
                 \<and> (case bsd_name_size data (ti_offset r) of
                       None \<Rightarrow> ti_offset_data r = ti_offset r + 60
                     | Some N \<Rightarrow> 0 \<le> N \<and> int (ti_offset_data r) = int (ti_offset r) + 60 + N)"
  using ar_member_files [OF step le]
proof (elim disjE conjE exE)
  assume "files s' = files s"
  with inv show ?thesis by simp
next
  fix table
  assume "files s' = map (apply_index is_thin (Some table)) (files s)"
  with inv show ?thesis by (auto simp: apply_index_offsets split: option.splits)
next
  fix nm1 t1 nm t
  assume ph: "parse_header is_thin (take HEADER_SIZE (drop (pos s) data))
                 (TarInfo_new \<lparr> ti_offset := pos s, ti_offset_data := pos s + HEADER_SIZE \<rparr>) = Inr (nm, t)"
     and bsd: "read_bsd_name data (pos s + HEADER_SIZE) nm t = Inr (nm1, t1)"
     and f: "files s' = files s @ [resolve_name is_thin (long_names s) nm1 t1]"
  show ?thesis
    using inv new_member_offsets [OF ph bsd le refl] unfolding f by simp
qed

lemma parse_ar_archive_offsets:
  assumes "parse_ar_archive data = Inr rows" and "r \<in> set rows"
  shows "ti_offset r < ti_offset_data r \<and> ti_offset_data r \<le> length data
         \<and> (case bsd_name_size data (ti_offset r) of
               None \<Rightarrow> ti_offset_data r = ti_offset r + 60
             | Some N \<Rightarrow> 0 \<le> N \<and> int (ti_offset_data r) = int (ti_offset r) + 60 + N)"
proof -
  from assms(1) obtain is_thin where
    loop: "ar_loop is_thin data \<lparr> pos = length (take 8 data), long_names = None, files = [] \<rparr> = Inr rows"
    by (auto simp: parse_ar_archive_def Let_def split: if_splits)
  have "\<forall>r \<in> set rows.
          ti_offset r < ti_offset_data r \<and> ti_offset_data r \<le> length data
          \<and> (case bsd_name_size data (ti_offset r) of
                None \<Rightarrow> ti_offset_data r = ti_offset r + 60
              | Some N \<Rightarrow> 0 \<le> N \<and> int (ti_offset_data r) = int (ti_offset r) + 60 + N)"
    by (rule ar_loop_invariant [OF loop]) (simp, rule ar_member_offsets)
  with assms(2) show ?thesis by blast
qed

text \<open>
  An invariant of the state of the loop holds of the state in which the loop returns.
\<close>

lemma ar_loop_state_invariant:
  assumes loop: "ar_loop is_thin data st = Inr rows"
      and init: "I st"
      and round: "\<And>s s'. pos s + HEADER_SIZE \<le> length data \<Longrightarrow> ar_member is_thin data s = Inr s'
             \<Longrightarrow> I s \<Longrightarrow> I s'"
  shows "\<exists>s. I s \<and> files s = rows"
proof -
  have "ar_loop t d s = Inr rows \<Longrightarrow> t = is_thin \<Longrightarrow> d = data
          \<Longrightarrow> I s \<Longrightarrow> \<exists>s. I s \<and> files s = rows" for t d s
  proof (induction t d s rule: ar_loop.induct)
    case (1 t d s)
    let ?h = "take HEADER_SIZE (drop (pos s) d)"
    show ?case
    proof (cases "?h = []")
      case True
      with "1.prems"(1) have "rows = files s"
        by (subst (asm) ar_loop.simps) simp
      with "1.prems"(4) show ?thesis by blast
    next
      case ne: False
      show ?thesis
      proof (cases "length ?h < HEADER_SIZE")
        case True
        with ne "1.prems"(1) show ?thesis
          by (subst (asm) ar_loop.simps) (simp add: Let_def min_def split: if_splits)
      next
        case full: False
        then have le: "pos s + HEADER_SIZE \<le> length d"
          by (simp add: min_def HEADER_SIZE_def split: if_splits)
        from ne full "1.prems"(1) obtain s' where
          step: "ar_member t d s = Inr s'" and
          rest: "ar_loop t d s' = Inr rows"
          by (subst (asm) ar_loop.simps)
             (cases "ar_member t d s"; simp add: Let_def min_def split: if_splits)
        have "I s'"
          using round [of s s'] le step "1.prems"(2,3,4) by simp
        then show ?thesis
          using "1.IH" [OF refl ne full step rest "1.prems"(2,3)] by blast
      qed
    qed
  qed
  from this [OF loop refl refl init] show ?thesis .
qed

text \<open>
  In a regular archive every round moves the position forward, and the round of a member
  moves it behind the member's body.
\<close>

lemma ar_member_regular_pos:
  assumes step: "ar_member False data s = Inr s'"
      and le: "pos s + HEADER_SIZE \<le> length data"
  shows "pos s \<le> pos s'"
    and "header_name data (pos s) \<noteq> ''/'' \<Longrightarrow> header_name data (pos s) \<noteq> ''//''
         \<Longrightarrow> int (ti_offset_data (last (files s'))) + ti_size (last (files s')) \<le> int (pos s')"
proof -
  let ?h = "take HEADER_SIZE (drop (pos s) data)"
  have len: "length ?h = HEADER_SIZE" using le by simp
  let ?t0 = "TarInfo_new \<lparr> ti_offset := pos s, ti_offset_data := pos s + HEADER_SIZE \<rparr>"
  from step len obtain nm t where ph: "parse_header False ?h ?t0 = Inr (nm, t)"
    by (cases "parse_header False ?h ?t0") (auto simp: ar_member_def Let_def ebind_def)
  have nm: "nm = header_name data (pos s)"
    using parse_header_InrD(1) [OF ph] by (simp add: header_name_def)
  show "pos s \<le> pos s'"
    using step len
    by (auto simp: ar_member_def Let_def ebind_def read_gnu_index_def HEADER_SIZE_def
             split: sum.splits prod.splits if_splits)
  assume ns: "header_name data (pos s) \<noteq> ''/''" and ng: "header_name data (pos s) \<noteq> ''//''"
  have sz: "0 \<le> ti_size t"
    using parse_header_InrD(4) [OF ph] by (simp add: padded_value_nonneg)
  have od: "ti_offset_data t = pos s + HEADER_SIZE"
    using parse_header_InrD(3) [OF ph] by simp
  from step len ph ns ng nm obtain nm1 t1 where
    bsd: "read_bsd_name data (pos s + HEADER_SIZE) nm t = Inr (nm1, t1)"
    by (cases "read_bsd_name data (pos s + HEADER_SIZE) nm t")
       (auto simp: ar_member_def Let_def ebind_def)
  from step len ph ns ng nm bsd
  have f: "files s' = files s @ [resolve_name False (long_names s) nm1 t1]"
    and p: "pos s' = pos s + HEADER_SIZE + nat (ti_size t + ti_size t mod 2)"
    by (auto simp: ar_member_def Let_def ebind_def)
  have "int (ti_offset_data t1) + ti_size t1 = int (ti_offset_data t) + ti_size t"
    using read_bsd_name_InrD(3) [OF bsd le] by (auto split: if_splits)
  moreover have "0 \<le> ti_size t mod 2" by simp
  ultimately show "int (ti_offset_data (last (files s'))) + ti_size (last (files s')) \<le> int (pos s')"
    using sz od unfolding f p by (simp add: resolve_name_offsets)
qed

text \<open>
  So in a regular archive every body ends at or before the position of the loop, and when
  a further complete header is read, at or before the end of the stream.
\<close>

lemma ar_member_regular_bound:
  assumes le: "pos s + HEADER_SIZE \<le> length data"
      and step: "ar_member False data s = Inr s'"
      and inv: "(\<forall>r \<in> set (files s). int (ti_offset_data r) + ti_size r \<le> int (pos s))
                \<and> (\<forall>r \<in> set (butlast (files s)).
                      int (ti_offset_data r) + ti_size r \<le> int (length data))"
  shows "(\<forall>r \<in> set (files s'). int (ti_offset_data r) + ti_size r \<le> int (pos s'))
         \<and> (\<forall>r \<in> set (butlast (files s')).
               int (ti_offset_data r) + ti_size r \<le> int (length data))"
proof -
  note mono = ar_member_regular_pos(1) [OF step le]
  note last = ar_member_regular_pos(2) [OF step le]
  from ar_member_files [OF step le] show ?thesis
  proof (elim disjE conjE exE)
    assume "files s' = files s"
    with inv mono show ?thesis by fastforce
  next
    fix table
    assume "files s' = map (apply_index False (Some table)) (files s)"
    with inv mono show ?thesis
      by (fastforce simp: apply_index_offsets map_butlast [symmetric])
  next
    fix nm1 t1 nm t
    assume ns: "header_name data (pos s) \<noteq> ''/''" and ng: "header_name data (pos s) \<noteq> ''//''"
       and f: "files s' = files s @ [resolve_name False (long_names s) nm1 t1]"
    have 1: "\<forall>r \<in> set (files s). int (ti_offset_data r) + ti_size r \<le> int (pos s')"
      using inv mono by fastforce
    have 2: "\<forall>r \<in> set (files s). int (ti_offset_data r) + ti_size r \<le> int (length data)"
      using inv le by fastforce
    show ?thesis
      using 1 2 last [OF ns ng] unfolding f by simp
  qed
qed

lemma parse_ar_archive_bound:
  assumes p: "parse_ar_archive data = Inr rows"
      and regular: "take 8 data = ''!<arch>\<newline>''"
      and r: "r \<in> set (butlast rows)"
  shows "int (ti_offset_data r) + ti_size r \<le> int (length data)"
proof -
  from p regular have
    loop: "ar_loop False data \<lparr> pos = length (take 8 data), long_names = None, files = [] \<rparr> = Inr rows"
    by (simp add: parse_ar_archive_def Let_def)
  let ?I = "\<lambda>s :: ar_state. (\<forall>r \<in> set (files s). int (ti_offset_data r) + ti_size r \<le> int (pos s))
              \<and> (\<forall>r \<in> set (butlast (files s)).
                    int (ti_offset_data r) + ti_size r \<le> int (length data))"
  have "\<exists>s. ?I s \<and> files s = rows"
  proof (rule ar_loop_state_invariant [of False data _ rows ?I, OF loop])
    show "?I \<lparr> pos = length (take 8 data), long_names = None, files = [] \<rparr>"
      by simp
  next
    fix s s'
    assume "pos s + HEADER_SIZE \<le> length data" "ar_member False data s = Inr s'" "?I s"
    then show "?I s'" by (rule ar_member_regular_bound)
  qed
  with r show ?thesis by blast
qed

text \<open>
  Claim C5, as stated, fails: the parser never compares a member's size with the length of
  the stream. A thin archive carries no bodies, so a member of size 100 in a thin archive of
  68 bytes gets \<open>data_offset + size = 168\<close>; and a regular archive that is cut off inside
  the body of its last member still yields the row of that member, because a seek beyond
  the end is allowed and merely ends the loop.
\<close>

theorem ar_row_bound_counterexample:
  "parse_ar_archive
     (''!<thin>\<newline>x/              1700000000  1000  1000  100644  100       '' @ [CHR 0x60] @ ''\<newline>'') =
     Inr [\<lparr> ti_name = ''x/'', ti_offset = 8, ti_offset_data = 68, ti_size = 100,
            ti_mtime = 1700000000, ti_uid = 1000, ti_gid = 1000, ti_mode = 41380,
            ti_linkname = [], ti_type = REGTYPE \<rparr>]
   \<and> length
       (''!<thin>\<newline>x/              1700000000  1000  1000  100644  100       '' @ [CHR 0x60] @ ''\<newline>'') = 68
   \<and> parse_ar_archive
     (''!<arch>\<newline>a/              0           0     0     100644  5         '' @ [CHR 0x60] @ ''\<newline>ab'') =
     Inr [\<lparr> ti_name = ''a/'', ti_offset = 8, ti_offset_data = 68, ti_size = 5,
            ti_mtime = 0, ti_uid = 0, ti_gid = 0, ti_mode = 33188,
            ti_linkname = [], ti_type = REGTYPE \<rparr>]
   \<and> length
       (''!<arch>\<newline>a/              0           0     0     100644  5         '' @ [CHR 0x60] @ ''\<newline>ab'') = 70"
  by code_simp

text \<open>
  Claim C5, amended: for every row that the AR parser emits, over any archive, thin ones
  included, \<open>header_offset < data_offset\<close>, \<open>data_offset\<close> does not exceed the length
  of the stream, and \<open>data_offset - header_offset\<close> is 60, or \<open>60 + N\<close> when the header
  carries a BSD long name \<open>#1/N\<close>; and in a regular archive
  \<open>data_offset + size\<close> does not exceed the length of the stream for every row but the
  last one, whose body the end of the stream may cut off. Nothing is promised about
  \<open>data_offset + size\<close> in a thin archive.
\<close>

theorem ar_row_offsets:
  assumes "parse_ar_archive data = Inr rows" and "r \<in> set rows"
  shows "ti_offset r < ti_offset_data r \<and> ti_offset_data r \<le> length data
         \<and> (case bsd_name_size data (ti_offset r) of
               None \<Rightarrow> ti_offset_data r = ti_offset r + 60
             | Some N \<Rightarrow> 0 \<le> N \<and> int (ti_offset_data r) = int (ti_offset r) + 60 + N)
         \<and> (take 8 data = ''!<arch>\<newline>'' \<and> r \<in> set (butlast rows)
              \<longrightarrow> int (ti_offset_data r) + ti_size r \<le> int (length data))"
  using parse_ar_archive_offsets [OF assms] parse_ar_archive_bound [OF assms(1)]
  by blast

theorem ar_row_offsets_witness:
  "parse_ar_archive
     (''!<arch>\<newline>#1/4            0           0     0     644     6         '' @ [CHR 0x60] @ ''\<newline>abcdhibar/            0           0     0     644     4         '' @ [CHR 0x60] @ ''\<newline>foo\<newline>'') =
     Inr [\<lparr> ti_name = ''abcd'', ti_offset = 8, ti_offset_data = 72, ti_size = 2,
            ti_mtime = 0, ti_uid = 0, ti_gid = 0, ti_mode = 33188,
            ti_linkname = [], ti_type = REGTYPE \<rparr>,
          \<lparr> ti_name = ''bar/'', ti_offset = 74, ti_offset_data = 134, ti_size = 4,
            ti_mtime = 0, ti_uid = 0, ti_gid = 0, ti_mode = 33188,
            ti_linkname = [], ti_type = REGTYPE \<rparr>]
   \<and> bsd_name_size
       (''!<arch>\<newline>#1/4            0           0     0     644     6         '' @ [CHR 0x60] @ ''\<newline>abcdhibar/            0           0     0     644     4         '' @ [CHR 0x60] @ ''\<newline>foo\<newline>'') 8 = Some 4
   \<and> (8::nat) < 72 \<and> (72::nat) \<le> length
       (''!<arch>\<newline>#1/4            0           0     0     644     6         '' @ [CHR 0x60] @ ''\<newline>abcdhibar/            0           0     0     644     4         '' @ [CHR 0x60] @ ''\<newline>foo\<newline>'')
   \<and> int 72 = int 8 + 60 + 4
   \<and> take 8
       (''!<arch>\<newline>#1/4            0           0     0     644     6         '' @ [CHR 0x60] @ ''\<newline>abcdhibar/            0           0     0     644     4         '' @ [CHR 0x60] @ ''\<newline>foo\<newline>'') = ''!<arch>\<newline>''
   \<and> int 72 + 2 \<le> int (length
       (''!<arch>\<newline>#1/4            0           0     0     644     6         '' @ [CHR 0x60] @ ''\<newline>abcdhibar/            0           0     0     644     4         '' @ [CHR 0x60] @ ''\<newline>foo\<newline>''))"
proof -
  let ?data = "''!<arch>\<newline>#1/4            0           0     0     644     6         '' @ [CHR 0x60] @ ''\<newline>abcdhibar/            0           0     0     644     4         '' @ [CHR 0x60] @ ''\<newline>foo\<newline>''"
  let ?r = "\<lparr> ti_name = ''abcd'', ti_offset = 8, ti_offset_data = 72, ti_size = 2,
            ti_mtime = 0, ti_uid = 0, ti_gid = 0, ti_mode = 33188,
            ti_linkname = [], ti_type = REGTYPE \<rparr>"
  let ?rows = "[?r, \<lparr> ti_name = ''bar/'', ti_offset = 74, ti_offset_data = 134, ti_size = 4,
            ti_mtime = 0, ti_uid = 0, ti_gid = 0, ti_mode = 33188,
            ti_linkname = [], ti_type = REGTYPE \<rparr>]"
  have h1: "parse_ar_archive ?data = Inr ?rows"
    by code_simp
  have h2: "?r \<in> set ?rows" by simp
  have h3: "?r \<in> set (butlast ?rows)" by simp
  have t: "take 8 ?data = ''!<arch>\<newline>''" by simp
  have b: "bsd_name_size ?data 8 = Some 4"
    by code_simp
  from ar_row_offsets [OF h1 h2] b t h3
  have "(8::nat) < 72 \<and> (72::nat) \<le> length ?data \<and> int 72 = int 8 + 60 + 4
        \<and> int 72 + 2 \<le> int (length ?data)"
    by simp
  with h1 b t show ?thesis by blast
qed

subsection \<open>The GNU table of long names\<close>








subsection \<open>Opening a symbolic link\<close>












section \<open>Properties of the HTML scanner and mount source\<close>

subsection \<open>Candidates of a start tag\<close>

lemma find_char_payload:
  "(case find_char CHR 0x2C v of None \<Rightarrow> False | Some i \<Rightarrow> \<not> (i + 1 \<ge> length v))
     = (payload v \<noteq> [])"
proof (induction v)
  case Nil
  show ?case by (simp add: payload_def)
next
  case (Cons x xs)
  show ?case
  proof (cases "x = CHR 0x2C")
    case True
    then show ?thesis by (auto simp: payload_def)
  next
    case False
    then have p: "payload (x # xs) = payload xs" by (simp add: payload_def)
    show ?thesis
      using Cons False unfolding p
      by (cases "find_char CHR 0x2C xs") auto
  qed
qed

lemma starttag_attribute_eq:
  "starttag_attribute A g fs item =
     (if snd item = None then Inl NoneType_startswith
      else Inr (fs @ (if carries_payload (snd item) then [candidate A g item] else [])))"
proof (cases "snd item")
  case None
  then show ?thesis by (simp add: starttag_attribute_def)
next
  case (Some v)
  then show ?thesis
    using find_char_payload [of v]
    by (auto simp: starttag_attribute_def candidate_def carries_payload_def Let_def
             split: option.splits)
qed

lemma starttag_attributes_eq:
  "starttag_attributes A g fs items =
     (if None \<in> snd ` set items then Inl NoneType_startswith
      else Inr (fs @ map (candidate A g) (filter (\<lambda>item. carries_payload (snd item)) items)))"
proof (induction items arbitrary: fs)
  case Nil
  show ?case by simp
next
  case (Cons item items)
  show ?case
    by (cases "snd item")
       (auto simp: starttag_attribute_eq ebind_def Cons)
qed

text \<open>
  What \<open>any\<close> tests: the values before the first one that begins with \<open>data:\<close>, and
  that one.
\<close>

lemma any_startswith_data_eq:
  "any_startswith_data attrs =
     (if None \<in> snd ` set (takeWhile (\<lambda>item. \<not> is_data_url (snd item)) attrs)
      then Inl NoneType_startswith
      else Inr (\<exists>item \<in> set attrs. is_data_url (snd item)))"
proof (induction attrs)
  case Nil
  show ?case by simp
next
  case (Cons item attrs)
  show ?case
  proof (cases "snd item")
    case None
    then show ?thesis by (simp add: is_data_url_def)
  next
    case (Some v)
    then show ?thesis
      using Cons by (auto simp: is_data_url_def)
  qed
qed

lemma set_dict_update: "set (dict_update d k v) \<subseteq> insert (k, v) (set d)"
  by (induction d) (auto split: if_splits)

lemma set_foldl_dict_update:
  "set (foldl (\<lambda>d (k, v). dict_update d k v) d0 items) \<subseteq> set d0 \<union> set items"
proof (induction items arbitrary: d0)
  case Nil
  show ?case by simp
next
  case (Cons kv items)
  obtain k v where kv: "kv = (k, v)" by (cases kv)
  show ?case
    using Cons [of "dict_update d0 k v"] set_dict_update [of d0 k v]
    by (auto simp: kv)
qed

lemma set_dict_of: "set (dict_of items) \<subseteq> set items"
  using set_foldl_dict_update [of "[]" items] by (simp add: dict_of_def)

lemma carries_payload_is_data_url: "carries_payload v \<Longrightarrow> is_data_url v"
  by (auto simp: carries_payload_def is_data_url_def split: option.splits)

text \<open>
  The whole of \<open>handle_starttag\<close>: it raises when \<open>any\<close> meets an attribute without a
  value, or when some value begins with \<open>data:\<close> and the merged attributes hold one
  without a value; otherwise it closes the open candidate and records the candidates of
  the merged attributes.
\<close>

lemma handle_starttag_eq:
  "handle_starttag fs getpos tag attrs =
     (if None \<in> snd ` set (takeWhile (\<lambda>item. \<not> is_data_url (snd item)) attrs)
         \<or> (\<exists>item \<in> set attrs. is_data_url (snd item)) \<and> None \<in> snd ` set (dict_of attrs)
      then Inl NoneType_startswith
      else Inr (update_end_offset fs getpos
                @ map (candidate (dict_of attrs) getpos)
                    (filter (\<lambda>item. carries_payload (snd item)) (dict_of attrs))))"
proof (cases "\<exists>item \<in> set attrs. is_data_url (snd item)")
  case True
  then show ?thesis
    by (simp add: handle_starttag_def Let_def any_startswith_data_eq ebind_def
          starttag_attributes_eq)
next
  case False
  then have "\<And>item. item \<in> set (dict_of attrs) \<Longrightarrow> \<not> carries_payload (snd item)"
    using set_dict_of [of attrs] carries_payload_is_data_url by blast
  then have "filter (\<lambda>item. carries_payload (snd item)) (dict_of attrs) = []"
    by (auto simp: filter_empty_conv)
  with False show ?thesis
    by (simp add: handle_starttag_def Let_def any_startswith_data_eq ebind_def)
qed

lemma handle_starttag_values:
  assumes "None \<notin> snd ` set attrs"
  shows "handle_starttag fs getpos tag attrs =
           Inr (update_end_offset fs getpos
                @ map (candidate (dict_of attrs) getpos)
                    (filter (\<lambda>item. carries_payload (snd item)) (dict_of attrs)))"
proof -
  have "None \<notin> snd ` set (takeWhile (\<lambda>item. \<not> is_data_url (snd item)) attrs)"
    using assms set_takeWhileD by fastforce
  moreover have "None \<notin> snd ` set (dict_of attrs)"
    using assms set_dict_of [of attrs] by auto
  ultimately show ?thesis
    by (simp add: handle_starttag_eq)
qed

text \<open>
  Claim C9, as stated, fails. \<open>handle_starttag\<close> first turns the attribute list into a
  dictionary, so of two attributes with the same name only the last value is looked at: in
  \<open><img src="data:,xx" src="zzz">\<close> the first value begins with \<open>data:\<close> and
  carries the payload \<open>xx\<close>, yet no candidate is recorded. And an attribute without a
  value, which \<open>HTMLParser\<close> passes as \<open>None\<close>, makes \<open>handle_starttag\<close> raise
  \<open>AttributeError\<close>, before or after the attribute with the payload and also alone, so
  that no candidate is recorded for \<open><input disabled src="data:,xx">\<close> either.
\<close>

theorem starttag_duplicate_counterexample:
  "handle_starttag [] \<lparr>line = 1, offset = 0\<rparr> ''img''
     [(''src'', Some ''data:,xx''), (''src'', Some ''zzz'')] = Inr []
   \<and> startswith ''data:,xx'' ''data:'' \<and> payload ''data:,xx'' = ''xx''
   \<and> handle_starttag [] \<lparr>line = 1, offset = 0\<rparr> ''input''
        [(''disabled'', None), (''src'', Some ''data:,xx'')] = Inl NoneType_startswith
   \<and> handle_starttag [] \<lparr>line = 1, offset = 0\<rparr> ''input''
        [(''src'', Some ''data:,xx''), (''disabled'', None)] = Inl NoneType_startswith
   \<and> handle_starttag [] \<lparr>line = 1, offset = 0\<rparr> ''input''
        [(''disabled'', None)] = Inl NoneType_startswith"
  by code_simp

text \<open>
  Claim C9, amended: on a start tag all of whose attributes have a value, after the open
  candidate has been closed and the attributes have been merged by name (the last value
  of a name stands, at the place of the name's first occurrence), an attribute value
  beginning with \<open>data:\<close> is skipped exactly when it has no comma or nothing follows
  its first comma, that is, when it carries no payload; otherwise one candidate is
  recorded for the attribute, in order, with the current tag position as start and the
  value of \<open>data-savepage-<attribute>\<close>, if present, as original URL.
\<close>

theorem handle_starttag_candidates:
  assumes "None \<notin> snd ` set attrs"
  shows "handle_starttag fs getpos tag attrs =
           Inr (update_end_offset fs getpos
                @ map (candidate (dict_of attrs) getpos)
                    (filter (\<lambda>item. carries_payload (snd item)) (dict_of attrs)))"
  using assms by (rule handle_starttag_values)

theorem handle_starttag_candidates_witness:
  "None \<notin> snd ` set [(''poster'', Some ''data:image/png;base64,''),
      (''src'', Some ''data:video/mp4;base64,AAAA''),
      (''data-savepage-src'', Some ''clip.mp4''), (''title'', Some ''data:'')]
   \<and> handle_starttag [] \<lparr>line = 3, offset = 8\<rparr> ''video''
     [(''poster'', Some ''data:image/png;base64,''), (''src'', Some ''data:video/mp4;base64,AAAA''),
      (''data-savepage-src'', Some ''clip.mp4''), (''title'', Some ''data:'')] =
   Inr [\<lparr> original_url = Some ''clip.mp4'', attribute = ''src'',
          start = \<lparr>line = 3, offset = 8\<rparr>, next_offset = None \<rparr>]"
proof -
  have n: "None \<notin> snd ` set [(''poster'', Some ''data:image/png;base64,''),
      (''src'', Some ''data:video/mp4;base64,AAAA''),
      (''data-savepage-src'', Some ''clip.mp4''), (''title'', Some ''data:'')]"
    by simp
  have "update_end_offset [] \<lparr>line = 3, offset = 8\<rparr>
     @ map (candidate (dict_of [(''poster'', Some ''data:image/png;base64,''),
      (''src'', Some ''data:video/mp4;base64,AAAA''),
      (''data-savepage-src'', Some ''clip.mp4''), (''title'', Some ''data:'')]) \<lparr>line = 3, offset = 8\<rparr>)
         (filter (\<lambda>item. carries_payload (snd item))
            (dict_of [(''poster'', Some ''data:image/png;base64,''),
      (''src'', Some ''data:video/mp4;base64,AAAA''),
      (''data-savepage-src'', Some ''clip.mp4''), (''title'', Some ''data:'')])) =
   [\<lparr> original_url = Some ''clip.mp4'', attribute = ''src'',
      start = \<lparr>line = 3, offset = 8\<rparr>, next_offset = None \<rparr>]"
    by code_simp
  then show ?thesis
    using handle_starttag_candidates [OF n, of "[]" "\<lparr>line = 3, offset = 8\<rparr>" "''video''"] n
    by simp
qed

subsection \<open>Rows and what opening them returns\<close>





end
